theory Spec2Isabelle
  imports Main "HOL-Library.List_Lexorder" "HOL-Library.Product_Lexorder"
begin

section \<open>Python values used by \<open>scripts/extract-country-mapping.py\<close>\<close>

text \<open>
  A Python \<open>str\<close> is a sequence of Unicode code points, compared code point by code
  point. It is modelled as a list of naturals; the order of \<open>List_Lexorder\<close> on such
  lists is Python's \<open>str\<close> order, and the order of \<open>Product_Lexorder\<close> on pairs of
  them is Python's tuple order. \<open>lit\<close> reads an ASCII literal of the script.
\<close>

type_synonym codepoint = nat
type_synonym pystr = "codepoint list"

definition lit :: "string \<Rightarrow> pystr" where
  "lit s = map of_char s"

text \<open>
  \<open>str.isspace\<close> on one code point: the code points CPython's
  \<open>_PyUnicode_IsWhitespace\<close> accepts. \<open>str.strip()\<close> without argument removes
  the longest prefix and the longest suffix made of them.
\<close>

definition isspace :: "codepoint \<Rightarrow> bool" where
  "isspace c \<longleftrightarrow>
     (9 \<le> c \<and> c \<le> 13) \<or> (28 \<le> c \<and> c \<le> 32) \<or> c = 133 \<or> c = 160 \<or> c = 5760 \<or>
     (8192 \<le> c \<and> c \<le> 8202) \<or> c = 8232 \<or> c = 8233 \<or> c = 8239 \<or> c = 8287 \<or> c = 12288"

definition lstrip :: "pystr \<Rightarrow> pystr" where
  "lstrip s = dropWhile isspace s"

definition rstrip :: "pystr \<Rightarrow> pystr" where
  "rstrip s = rev (dropWhile isspace (rev s))"

definition strip :: "pystr \<Rightarrow> pystr" where
  "strip s = rstrip (lstrip s)"

text \<open>
  \<open>s.replace(old, new)\<close>: the occurrences of \<open>old\<close> are replaced from left to
  right, without overlap; for an empty \<open>old\<close>, \<open>new\<close> is put in front of the string
  and after each of its code points.
\<close>

function replace :: "pystr \<Rightarrow> pystr \<Rightarrow> pystr \<Rightarrow> pystr" where
  "replace s old new =
     (if old = [] then new @ concat (map (\<lambda>c. c # new) s)
      else if s = [] then []
      else if take (length old) s = old then new @ replace (drop (length old) s) old new
      else hd s # replace (tl s) old new)"
  by pat_completeness auto
termination
  by (relation "measure (\<lambda>(s, old, new). length s)") auto

declare replace.simps [simp del]

text \<open>\<open>str(n)\<close> for a length: the decimal digits, most significant first.\<close>

fun str_of_nat :: "nat \<Rightarrow> pystr" where
  "str_of_nat n = (if n < 10 then [48 + n] else str_of_nat (n div 10) @ [48 + n mod 10])"

declare str_of_nat.simps [simp del]

text \<open>
  A Python \<open>dict\<close> keeps its keys in insertion order: assigning to a key that is present
  replaces the value where the key stands, assigning to a new key appends it.
  \<open>items()\<close> is the list itself.
\<close>

type_synonym ('k, 'v) dict = "('k \<times> 'v) list"

fun dict_setitem :: "('k, 'v) dict \<Rightarrow> 'k \<Rightarrow> 'v \<Rightarrow> ('k, 'v) dict" where
  "dict_setitem [] k v = [(k, v)]"
| "dict_setitem ((k', v') # d) k v =
     (if k' = k then (k', v) # d else (k', v') # dict_setitem d k v)"

text \<open>
  A row of \<open>csv.DictReader\<close>: a dict from the header's names to the fields of the
  line. A name the header does not have is no key of the row; a name of the header for
  which the line is too short has the value \<open>None\<close> (the reader's \<open>restval\<close>).
\<close>

datatype pyval = PyStr pystr | PyNone

type_synonym row = "pystr \<rightharpoonup> pyval"

text \<open>The one exception the script's own code can raise: \<open>None.strip()\<close>.\<close>

datatype error = AttributeError

definition row_get :: "row \<Rightarrow> pystr \<Rightarrow> pyval \<Rightarrow> pyval" where
  "row_get r k d = (case r k of None \<Rightarrow> d | Some v \<Rightarrow> v)"

fun py_strip :: "pyval \<Rightarrow> error + pystr" where
  "py_strip (PyStr s) = Inr (strip s)"
| "py_strip PyNone = Inl AttributeError"

section \<open>The script\<close>

definition REF_AREA :: pystr where
  "REF_AREA = lit ''REF_AREA''"

definition REF_AREA_LABEL :: pystr where
  "REF_AREA_LABEL = lit ''REF_AREA_LABEL''"

text \<open>Lines 25 to 29: the body of the loop over the reader's rows.\<close>

definition loop_body :: "(pystr, pystr) dict \<Rightarrow> row \<Rightarrow> error + (pystr, pystr) dict" where
  "loop_body country_map r =
     (case py_strip (row_get r REF_AREA (PyStr [])) of
        Inl e \<Rightarrow> Inl e
      | Inr code \<Rightarrow>
          (case py_strip (row_get r REF_AREA_LABEL (PyStr [])) of
             Inl e \<Rightarrow> Inl e
           | Inr name \<Rightarrow>
               Inr (if code \<noteq> [] \<and> name \<noteq> [] then dict_setitem country_map code name
                    else country_map)))"

text \<open>Line 24: the loop, stopped by the first exception.\<close>

fun read_rows :: "(pystr, pystr) dict \<Rightarrow> row list \<Rightarrow> error + (pystr, pystr) dict" where
  "read_rows country_map [] = Inr country_map"
| "read_rows country_map (r # rs) =
     (case loop_body country_map r of
        Inl e \<Rightarrow> Inl e
      | Inr country_map' \<Rightarrow> read_rows country_map' rs)"

text \<open>Line 32: \<open>sorted(country_map.items())\<close>, the pairs in ascending tuple order.\<close>

definition sorted_countries :: "(pystr, pystr) dict \<Rightarrow> (pystr \<times> pystr) list" where
  "sorted_countries country_map = sort country_map"

text \<open>
  Lines 60 and 61: the dict comprehension \<open>{name: code for code, name in ...}\<close> and
  \<open>dict(...)\<close>; both assign the pairs from left to right to a dict that starts empty.
\<close>

definition name_to_code :: "(pystr \<times> pystr) list \<Rightarrow> (pystr, pystr) dict" where
  "name_to_code cs = foldl (\<lambda>d (code, name). dict_setitem d name code) [] cs"

definition code_to_name :: "(pystr \<times> pystr) list \<Rightarrow> (pystr, pystr) dict" where
  "code_to_name cs = foldl (\<lambda>d (code, name). dict_setitem d code name) [] cs"


subsection \<open>\<open>json.dump(..., indent=2, ensure_ascii=False)\<close>\<close>

text \<open>
  The values the script serialises are strings and dicts with string keys. The encoder
  follows \<open>json.encoder\<close>: with \<open>ensure_ascii=False\<close> a string is written between
  double quotes with only the backslash, the double quote and the code points below 32
  escaped; with an indentation a non-empty dict is written with one item per line, the
  items separated by a comma, key and value by a colon and a space, and an empty dict as
  \<open>{}\<close>.
\<close>

datatype json = JStr pystr | JDict "(pystr \<times> json) list"

definition hex_digit :: "nat \<Rightarrow> codepoint" where
  "hex_digit d = (if d < 10 then 48 + d else 87 + d)"

definition escape_char :: "codepoint \<Rightarrow> pystr" where
  "escape_char c =
     (if c = 92 then [92, 92]
      else if c = 34 then [92, 34]
      else if c = 8 then [92, 98]
      else if c = 12 then [92, 102]
      else if c = 10 then [92, 110]
      else if c = 13 then [92, 114]
      else if c = 9 then [92, 116]
      else if c < 32 then [92, 117, 48, 48, hex_digit (c div 16), hex_digit (c mod 16)]
      else [c])"

definition encode_basestring :: "pystr \<Rightarrow> pystr" where
  "encode_basestring s = [34] @ concat (map escape_char s) @ [34]"

definition newline_indent :: "nat \<Rightarrow> nat \<Rightarrow> pystr" where
  "newline_indent indent level = 10 # replicate (indent * level) 32"

fun join :: "pystr \<Rightarrow> pystr list \<Rightarrow> pystr" where
  "join sep [] = []"
| "join sep [x] = x"
| "join sep (x # y # ys) = x @ sep @ join sep (y # ys)"

fun iterencode :: "nat \<Rightarrow> nat \<Rightarrow> json \<Rightarrow> pystr"
  and iterencode_items :: "nat \<Rightarrow> nat \<Rightarrow> (pystr \<times> json) list \<Rightarrow> pystr list" where
  "iterencode indent level (JStr s) = encode_basestring s"
| "iterencode indent level (JDict dct) =
     (case dct of
        [] \<Rightarrow> lit ''{}''
      | _ \<Rightarrow>
          lit ''{'' @ newline_indent indent (Suc level)
          @ join (lit '','' @ newline_indent indent (Suc level))
                 (iterencode_items indent (Suc level) dct)
          @ newline_indent indent level @ lit ''}'')"
| "iterencode_items indent level [] = []"
| "iterencode_items indent level ((key, v) # dct) =
     (encode_basestring key @ lit '': '' @ iterencode indent level v)
     # iterencode_items indent level dct"

definition json_dump :: "json \<Rightarrow> nat \<Rightarrow> pystr" where
  "json_dump obj indent = iterencode indent 0 obj"

definition str_dict :: "(pystr, pystr) dict \<Rightarrow> json" where
  "str_dict d = JDict (map (\<lambda>(k, v). (k, JStr v)) d)"

subsection \<open>The procedure and its effects\<close>

text \<open>
  The world the script runs in: what the input path holds (nothing, or a file that
  \<open>csv.DictReader\<close> reads as a sequence of rows), the text files by path, and the text
  written to standard output so far. \<open>print\<close> appends its argument and a newline.
  Paths are rendered as on POSIX. A run either returns (exit status 0) or ends in an
  uncaught exception (exit status 1).
\<close>

datatype input_state = Absent | Present "row list"

record world =
  csv_input :: input_state
  files :: "pystr \<rightharpoonup> pystr"
  stdout :: pystr

datatype outcome = Returned | Raised error

fun exit_status :: "outcome \<Rightarrow> nat" where
  "exit_status Returned = 0"
| "exit_status (Raised e) = 1"

definition py_print :: "pystr \<Rightarrow> world \<Rightarrow> world" where
  "py_print s w = w\<lparr>stdout := stdout w @ s @ [10]\<rparr>"

definition csv_file :: pystr where
  "csv_file = lit ''../data/48-indicators/IMF_GFSE_GE_G14.csv''"

definition output_file :: pystr where
  "output_file = lit ''country-mapping.json''"

text \<open>
  Lines 43 and 44, and lines 52 and 53: the line printed for one pair in each of the two
  blocks. The apostrophe is code point 39, the backslash code point 92.
\<close>

definition imf_country_map_line :: "pystr \<Rightarrow> pystr \<Rightarrow> pystr" where
  "imf_country_map_line code name =
     (let escaped_name = replace name [39] [92, 39]
      in lit ''  '' @ [39] @ escaped_name @ [39] @ lit '': '' @ [39] @ code @ [39] @ lit '','')"

definition code_to_name_line :: "pystr \<Rightarrow> pystr \<Rightarrow> pystr" where
  "code_to_name_line code name =
     (let escaped_name = replace name [39] [92, 39]
      in lit ''  '' @ [39] @ code @ [39] @ lit '': '' @ [39] @ escaped_name @ [39] @ lit '','')"

definition extract_country_mapping :: "world \<Rightarrow> outcome \<times> world" where
  "extract_country_mapping w =
     (case csv_input w of
        Absent \<Rightarrow> (Returned, py_print (lit ''Error: '' @ csv_file @ lit '' not found'') w)
      | Present rows \<Rightarrow>
          (case read_rows [] rows of
             Inl e \<Rightarrow> (Raised e, w)
           | Inr country_map \<Rightarrow>
               (let cs = sorted_countries country_map;
                    w = py_print (lit ''Found '' @ str_of_nat (length cs)
                                  @ lit '' unique countries'' @ [10]) w;
                    w = py_print (replicate 80 61) w;
                    w = py_print (lit ''COUNTRY CODE MAPPING (for countryMapping.js)'') w;
                    w = py_print (replicate 80 61) w;
                    w = py_print ([10] @ lit ''// Extracted from IMF data - REF_AREA_LABEL to REF_AREA'') w;
                    w = py_print (lit ''const IMF_COUNTRY_MAP = {'') w;
                    w = foldl (\<lambda>w (code, name). py_print (imf_country_map_line code name) w) w cs;
                    w = py_print (lit ''}'' @ [10]) w;
                    w = py_print ([10] @ lit ''// Reverse mapping (code to name) for display'') w;
                    w = py_print (lit ''const CODE_TO_NAME = {'') w;
                    w = foldl (\<lambda>w (code, name). py_print (code_to_name_line code name) w) w cs;
                    w = py_print (lit ''}'' @ [10]) w;
                    w = w\<lparr>files := (files w)(output_file \<mapsto>
                            json_dump (JDict [(lit ''nameToCode'', str_dict (name_to_code cs)),
                                              (lit ''codeToName'', str_dict (code_to_name cs))]) 2)\<rparr>;
                    w = py_print ([10, 9989] @ lit '' Mapping saved to '' @ output_file) w;
                    w = py_print ([9989] @ lit '' Total countries: '' @ str_of_nat (length cs)) w
                in (Returned, w))))"


section \<open>Notions of the specification\<close>

text \<open>
  The trimmed text of a field of a row, a missing field read as the empty string. (A field
  that is \<open>None\<close> has no text; the loop raises on such a row, and no statement below
  uses the value chosen for it here.)
\<close>

definition trimmed :: "row \<Rightarrow> pystr \<Rightarrow> pystr" where
  "trimmed r k = (case row_get r k (PyStr []) of PyStr s \<Rightarrow> strip s | PyNone \<Rightarrow> [])"

text \<open>The rows whose trimmed code and trimmed label are both non-empty, and their pairs
  in file order.\<close>

definition retained_row :: "row \<Rightarrow> bool" where
  "retained_row r \<longleftrightarrow> trimmed r REF_AREA \<noteq> [] \<and> trimmed r REF_AREA_LABEL \<noteq> []"

definition retained :: "row list \<Rightarrow> (pystr \<times> pystr) list" where
  "retained rows =
     map (\<lambda>r. (trimmed r REF_AREA, trimmed r REF_AREA_LABEL)) (filter retained_row rows)"

text \<open>A non-empty string without leading or trailing whitespace.\<close>

definition clean :: "pystr \<Rightarrow> bool" where
  "clean s \<longleftrightarrow> s \<noteq> [] \<and> \<not> isspace (hd s) \<and> \<not> isspace (last s)"

text \<open>Assigning a list of pairs, from left to right, to a dict.\<close>

definition assign_all :: "('k, 'v) dict \<Rightarrow> ('k \<times> 'v) list \<Rightarrow> ('k, 'v) dict" where
  "assign_all d kvs = foldl (\<lambda>d (k, v). dict_setitem d k v) d kvs"

text \<open>
  The text a successful run prints and the text it writes, in closed form, for the sorted
  sequence \<open>cs\<close> (lemma \<open>run_success\<close> below proves that the procedure produces them).
\<close>

definition console_text :: "(pystr \<times> pystr) list \<Rightarrow> pystr" where
  "console_text cs =
     lit ''Found '' @ str_of_nat (length cs) @ lit '' unique countries'' @ [10, 10]
     @ replicate 80 61 @ [10]
     @ lit ''COUNTRY CODE MAPPING (for countryMapping.js)'' @ [10]
     @ replicate 80 61 @ [10]
     @ [10] @ lit ''// Extracted from IMF data - REF_AREA_LABEL to REF_AREA'' @ [10]
     @ lit ''const IMF_COUNTRY_MAP = {'' @ [10]
     @ concat (map (\<lambda>(code, name). imf_country_map_line code name @ [10]) cs)
     @ lit ''}'' @ [10, 10]
     @ [10] @ lit ''// Reverse mapping (code to name) for display'' @ [10]
     @ lit ''const CODE_TO_NAME = {'' @ [10]
     @ concat (map (\<lambda>(code, name). code_to_name_line code name @ [10]) cs)
     @ lit ''}'' @ [10, 10]
     @ [10, 9989] @ lit '' Mapping saved to '' @ output_file @ [10]
     @ [9989] @ lit '' Total countries: '' @ str_of_nat (length cs) @ [10]"

definition json_object :: "(pystr \<times> pystr) list \<Rightarrow> json" where
  "json_object cs =
     JDict [(lit ''nameToCode'', str_dict (name_to_code cs)),
            (lit ''codeToName'', str_dict (code_to_name cs))]"

subsection \<open>Reading a JSON text\<close>

text \<open>
  What it means for a text to be a JSON object: a reader for the grammar of RFC 8259,
  restricted to the values that are strings and objects. Whitespace is the space, the
  tab, the line feed and the carriage return. A string stands between double quotes; a
  code point below 32 and a bare double quote or backslash are not allowed in it, and the
  escapes are the two-character ones and \<open>\uXXXX\<close> (the escapes of the surrogate code
  points, which stand for one code point in pairs, are not read). The number \<open>n\<close> bounds
  the nesting and the number of members read; \<open>json_read\<close> gives it the length of the
  text, and accepts a text that is one value with whitespace around it.
\<close>

definition is_ws :: "codepoint \<Rightarrow> bool" where
  "is_ws c \<longleftrightarrow> c = 32 \<or> c = 9 \<or> c = 10 \<or> c = 13"

definition skip_ws :: "pystr \<Rightarrow> pystr" where
  "skip_ws s = dropWhile is_ws s"

definition hex_val :: "codepoint \<Rightarrow> nat option" where
  "hex_val c =
     (if 48 \<le> c \<and> c \<le> 57 then Some (c - 48)
      else if 97 \<le> c \<and> c \<le> 102 then Some (c - 87)
      else if 65 \<le> c \<and> c \<le> 70 then Some (c - 55)
      else None)"

definition hex4 :: "pystr \<Rightarrow> nat option" where
  "hex4 ds =
     (case map hex_val ds of
        [Some a, Some b, Some c, Some d] \<Rightarrow> Some (((a * 16 + b) * 16 + c) * 16 + d)
      | _ \<Rightarrow> None)"

definition unescape :: "codepoint \<Rightarrow> codepoint option" where
  "unescape e =
     (if e = 34 then Some 34
      else if e = 92 then Some 92
      else if e = 47 then Some 47
      else if e = 98 then Some 8
      else if e = 102 then Some 12
      else if e = 110 then Some 10
      else if e = 114 then Some 13
      else if e = 116 then Some 9
      else None)"

fun read_chars :: "pystr \<Rightarrow> (pystr \<times> pystr) option" where
  "read_chars [] = None"
| "read_chars (c # cs) =
     (if c = 34 then Some ([], cs)
      else if c = 92 then
        (case cs of
           [] \<Rightarrow> None
         | e # cs' \<Rightarrow>
             if e = 117 then
               (case hex4 (take 4 cs') of
                  None \<Rightarrow> None
                | Some u \<Rightarrow>
                    if 55296 \<le> u \<and> u \<le> 57343 then None
                    else map_option (apfst ((#) u)) (read_chars (drop 4 cs')))
             else
               (case unescape e of
                  None \<Rightarrow> None
                | Some u \<Rightarrow> map_option (apfst ((#) u)) (read_chars cs')))
      else if c < 32 then None
      else map_option (apfst ((#) c)) (read_chars cs))"

fun read_value :: "nat \<Rightarrow> pystr \<Rightarrow> (json \<times> pystr) option"
  and read_members :: "nat \<Rightarrow> pystr \<Rightarrow> ((pystr \<times> json) list \<times> pystr) option" where
  "read_value 0 s = None"
| "read_value (Suc n) s =
     (case s of
        [] \<Rightarrow> None
      | c # cs \<Rightarrow>
          if c = 34 then map_option (apfst JStr) (read_chars cs)
          else if c = 123 then
            (case skip_ws cs of
               [] \<Rightarrow> None
             | d # ds \<Rightarrow>
                 if d = 125 then Some (JDict [], ds)
                 else map_option (apfst JDict) (read_members n (d # ds)))
          else None)"
| "read_members 0 s = None"
| "read_members (Suc n) s =
     (case s of
        [] \<Rightarrow> None
      | q # s1 \<Rightarrow>
          if q \<noteq> 34 then None
          else
            (case read_chars s1 of
               None \<Rightarrow> None
             | Some (key, s2) \<Rightarrow>
                 (case skip_ws s2 of
                    [] \<Rightarrow> None
                  | c # s3 \<Rightarrow>
                      if c \<noteq> 58 then None
                      else
                        (case read_value n (skip_ws s3) of
                           None \<Rightarrow> None
                         | Some (v, s4) \<Rightarrow>
                             (case skip_ws s4 of
                                [] \<Rightarrow> None
                              | d # s5 \<Rightarrow>
                                  if d = 125 then Some ([(key, v)], s5)
                                  else if d = 44 then
                                    map_option (apfst ((#) (key, v)))
                                      (read_members n (skip_ws s5))
                                  else None)))))"

definition json_read :: "pystr \<Rightarrow> json option" where
  "json_read s =
     (case read_value (length s) (skip_ws s) of
        None \<Rightarrow> None
      | Some (v, rest) \<Rightarrow> if skip_ws rest = [] then Some v else None)"

section \<open>Example inputs\<close>

text \<open>The three rows of the end-to-end scenario.\<close>

definition scenario_rows :: "row list" where
  "scenario_rows =
     [[REF_AREA \<mapsto> PyStr (lit ''US''), REF_AREA_LABEL \<mapsto> PyStr (lit ''United States'')],
      [REF_AREA \<mapsto> PyStr (lit ''US''), REF_AREA_LABEL \<mapsto> PyStr (lit ''United States of America'')],
      [REF_AREA \<mapsto> PyStr (lit ''FR''), REF_AREA_LABEL \<mapsto> PyStr (lit ''France'')]]"

definition scenario_world :: world where
  "scenario_world = \<lparr>csv_input = Present scenario_rows, files = Map.empty, stdout = []\<rparr>"

text \<open>
  Five rows: a padded code and a padded label with an apostrophe and a non-ASCII letter,
  a row without label field, a row with a blank code, and two codes with one label.
\<close>

definition cote_divoire :: pystr where
  "cote_divoire = lit ''C'' @ [244] @ lit ''te d'' @ [39] @ lit ''Ivoire''"

definition sample_rows :: "row list" where
  "sample_rows =
     [[REF_AREA \<mapsto> PyStr (lit '' CI ''), REF_AREA_LABEL \<mapsto> PyStr (cote_divoire @ lit '' '')],
      [REF_AREA \<mapsto> PyStr (lit ''DE'')],
      [REF_AREA \<mapsto> PyStr (lit ''  ''), REF_AREA_LABEL \<mapsto> PyStr (lit ''Nowhere'')],
      [REF_AREA \<mapsto> PyStr (lit ''KR''), REF_AREA_LABEL \<mapsto> PyStr (lit ''Korea'')],
      [REF_AREA \<mapsto> PyStr (lit ''KP''), REF_AREA_LABEL \<mapsto> PyStr (lit ''Korea'')]]"

definition sample_map :: "(pystr, pystr) dict" where
  "sample_map = [(lit ''CI'', cote_divoire), (lit ''KR'', lit ''Korea''), (lit ''KP'', lit ''Korea'')]"

definition sample_world :: world where
  "sample_world = \<lparr>csv_input = Present sample_rows, files = Map.empty, stdout = []\<rparr>"

text \<open>A label with a non-ASCII letter, a double quote, a backslash, a line feed, the
  control character 1 and the line separator U+2028.\<close>

definition mixed_label :: pystr where
  "mixed_label = [244, 34, 92, 10, 1, 8232]"

text \<open>A line that is too short for the header: the label is \<open>None\<close>.\<close>

definition short_row :: row where
  "short_row = [REF_AREA \<mapsto> PyStr (lit ''US''), REF_AREA_LABEL \<mapsto> PyNone]"

definition missing_world :: world where
  "missing_world = \<lparr>csv_input = Absent, files = Map.empty, stdout = []\<rparr>"

section \<open>Dicts as insertion-ordered association lists\<close>

lemma map_of_dict_setitem: "map_of (dict_setitem d k v) = (map_of d)(k \<mapsto> v)"
  by (induction d) (auto simp: fun_eq_iff)

lemma keys_dict_setitem_list:
  "map fst (dict_setitem d k v) = (if k \<in> fst ` set d then map fst d else map fst d @ [k])"
  by (induction d) (auto split: if_splits)

lemma keys_dict_setitem: "fst ` set (dict_setitem d k v) = insert k (fst ` set d)"
  using arg_cong [OF keys_dict_setitem_list [of d k v], of set]
  by (auto split: if_splits)

lemma distinct_dict_setitem:
  "distinct (map fst d) \<Longrightarrow> distinct (map fst (dict_setitem d k v))"
  by (simp add: keys_dict_setitem_list)

lemma set_dict_setitem: "set (dict_setitem d k v) \<subseteq> insert (k, v) (set d)"
  by (induction d) (auto split: if_splits)

lemma assign_all_Nil: "assign_all d [] = d"
  by (simp add: assign_all_def)

lemma assign_all_Cons: "assign_all d ((k, v) # kvs) = assign_all (dict_setitem d k v) kvs"
  by (simp add: assign_all_def)

lemma assign_all_snoc: "assign_all d (kvs @ [(k, v)]) = dict_setitem (assign_all d kvs) k v"
  by (simp add: assign_all_def)

lemma map_of_assign_all: "map_of (assign_all d kvs) = map_of d ++ map_of (rev kvs)"
proof (induction kvs rule: rev_induct)
  case Nil
  then show ?case by (simp add: assign_all_Nil)
next
  case (snoc p kvs)
  obtain k v where p: "p = (k, v)" by (cases p)
  show ?case
    by (auto simp: p assign_all_snoc map_of_dict_setitem snoc.IH fun_eq_iff map_add_def)
qed

lemma keys_assign_all: "fst ` set (assign_all d kvs) = fst ` set d \<union> fst ` set kvs"
proof (induction kvs rule: rev_induct)
  case Nil
  then show ?case by (simp add: assign_all_Nil)
next
  case (snoc p kvs)
  obtain k v where p: "p = (k, v)" by (cases p)
  show ?case
    by (auto simp: p assign_all_snoc keys_dict_setitem snoc.IH)
qed

lemma distinct_assign_all:
  "distinct (map fst d) \<Longrightarrow> distinct (map fst (assign_all d kvs))"
proof (induction kvs rule: rev_induct)
  case Nil
  then show ?case by (simp add: assign_all_Nil)
next
  case (snoc p kvs)
  obtain k v where p: "p = (k, v)" by (cases p)
  from snoc show ?case
    by (simp add: p assign_all_snoc distinct_dict_setitem)
qed

lemma set_assign_all: "set (assign_all d kvs) \<subseteq> set d \<union> set kvs"
proof (induction kvs rule: rev_induct)
  case Nil
  then show ?case by (simp add: assign_all_Nil)
next
  case (snoc p kvs)
  obtain k v where p: "p = (k, v)" by (cases p)
  from snoc set_dict_setitem [of "assign_all d kvs" k v] show ?case
    by (auto simp: p assign_all_snoc)
qed

section \<open>The loop and the retained rows\<close>

lemma loop_body_retained:
  "loop_body m r = Inr m' \<Longrightarrow>
     m' = (if retained_row r then dict_setitem m (trimmed r REF_AREA) (trimmed r REF_AREA_LABEL) else m)"
  by (auto simp: loop_body_def retained_row_def trimmed_def split: sum.splits pyval.splits if_splits)

lemma read_rows_retained:
  "read_rows m rows = Inr t \<Longrightarrow> t = assign_all m (retained rows)"
proof (induction rows arbitrary: m)
  case Nil
  then show ?case by (simp add: retained_def assign_all_Nil)
next
  case (Cons r rows)
  from Cons.prems obtain m' where b: "loop_body m r = Inr m'" and rest: "read_rows m' rows = Inr t"
    by (auto split: sum.splits)
  from Cons.IH [OF rest] loop_body_retained [OF b] show ?case
    by (auto simp: retained_def assign_all_Cons)
qed

lemma map_of_rev_last:
  "map_of (rev xs) c = Some l \<longleftrightarrow> (\<exists>pre post. xs = pre @ (c, l) # post \<and> c \<notin> fst ` set post)"
proof (induction xs rule: rev_induct)
  case Nil
  then show ?case by simp
next
  case (snoc p xs)
  obtain k v where p: "p = (k, v)" by (cases p)
  show ?case
  proof (cases "k = c")
    case True
    have "(\<exists>pre post. xs @ [(c, v)] = pre @ (c, l) # post \<and> c \<notin> fst ` set post) \<longleftrightarrow> v = l"
    proof
      assume "\<exists>pre post. xs @ [(c, v)] = pre @ (c, l) # post \<and> c \<notin> fst ` set post"
      then obtain pre post where e: "xs @ [(c, v)] = pre @ (c, l) # post" and n: "c \<notin> fst ` set post"
        by blast
      show "v = l"
      proof (cases post rule: rev_cases)
        case Nil
        with e show ?thesis by simp
      next
        case (snoc post' q)
        with e have "q = (c, v)" by simp
        with snoc n show ?thesis by simp
      qed
    next
      assume "v = l"
      then have "xs @ [(c, v)] = xs @ (c, l) # [] \<and> c \<notin> fst ` set []" by simp
      then show "\<exists>pre post. xs @ [(c, v)] = pre @ (c, l) # post \<and> c \<notin> fst ` set post" by blast
    qed
    then show ?thesis by (simp add: p True)
  next
    case False
    have "(\<exists>pre post. xs @ [(k, v)] = pre @ (c, l) # post \<and> c \<notin> fst ` set post) \<longleftrightarrow>
          (\<exists>pre post. xs = pre @ (c, l) # post \<and> c \<notin> fst ` set post)"
    proof
      assume "\<exists>pre post. xs @ [(k, v)] = pre @ (c, l) # post \<and> c \<notin> fst ` set post"
      then obtain pre post where e: "xs @ [(k, v)] = pre @ (c, l) # post" and n: "c \<notin> fst ` set post"
        by blast
      show "\<exists>pre post. xs = pre @ (c, l) # post \<and> c \<notin> fst ` set post"
      proof (cases post rule: rev_cases)
        case Nil
        with e False show ?thesis by simp
      next
        case (snoc post' q)
        with e have "xs = pre @ (c, l) # post'" by simp
        moreover from snoc n have "c \<notin> fst ` set post'" by simp
        ultimately show ?thesis by blast
      qed
    next
      assume "\<exists>pre post. xs = pre @ (c, l) # post \<and> c \<notin> fst ` set post"
      then obtain pre post where e: "xs = pre @ (c, l) # post" and n: "c \<notin> fst ` set post"
        by blast
      from e have "xs @ [(k, v)] = pre @ (c, l) # (post @ [(k, v)])" by simp
      moreover from n False have "c \<notin> fst ` set (post @ [(k, v)])" by auto
      ultimately show "\<exists>pre post. xs @ [(k, v)] = pre @ (c, l) # post \<and> c \<notin> fst ` set post"
        by blast
    qed
    then show ?thesis using False snoc.IH by (simp add: p)
  qed
qed

lemma assign_all_append_new:
  "k \<notin> fst ` set d \<Longrightarrow> dict_setitem d k v = d @ [(k, v)]"
  by (induction d) auto

lemma assign_all_distinct_id:
  "distinct (map fst kvs) \<Longrightarrow> assign_all [] kvs = kvs"
proof (induction kvs rule: rev_induct)
  case Nil
  then show ?case by (simp add: assign_all_Nil)
next
  case (snoc p kvs)
  obtain k v where p: "p = (k, v)" by (cases p)
  from snoc.prems have d: "distinct (map fst kvs)" and n: "k \<notin> fst ` set kvs"
    by (auto simp: p)
  from snoc.IH [OF d] n show ?case
    by (simp add: p assign_all_snoc assign_all_append_new)
qed

section \<open>Reading the example inputs\<close>

lemma field_names_differ: "REF_AREA \<noteq> REF_AREA_LABEL" "REF_AREA_LABEL \<noteq> REF_AREA"
  by (simp_all add: REF_AREA_def REF_AREA_LABEL_def lit_def)

lemmas strip_defs = strip_def lstrip_def rstrip_def isspace_def

lemma scenario_read:
  "read_rows [] scenario_rows =
     Inr [(lit ''US'', lit ''United States of America''), (lit ''FR'', lit ''France'')]"
  by (simp add: scenario_rows_def loop_body_def row_get_def field_names_differ strip_defs lit_def)

lemma sample_read: "read_rows [] sample_rows = Inr sample_map"
  by (simp add: sample_rows_def sample_map_def cote_divoire_def loop_body_def row_get_def
      field_names_differ strip_defs lit_def)

lemma sample_retained: "retained sample_rows = sample_map"
  by (simp add: sample_rows_def sample_map_def cote_divoire_def retained_def retained_row_def trimmed_def row_get_def
      field_names_differ strip_defs lit_def)

section \<open>The sorted sequence and the two maps\<close>

lemma code_to_name_assign: "code_to_name cs = assign_all [] cs"
  by (simp add: code_to_name_def assign_all_def)

lemma name_to_code_assign: "name_to_code cs = assign_all [] (map prod.swap cs)"
  by (simp add: name_to_code_def assign_all_def foldl_map case_prod_unfold)

lemma map_of_name_to_code:
  "map_of (name_to_code cs) label = Some code \<longleftrightarrow>
     (\<exists>pre post. cs = pre @ (code, label) # post \<and> label \<notin> snd ` set post)"
proof
  assume "map_of (name_to_code cs) label = Some code"
  then have "map_of (rev (map prod.swap cs)) label = Some code"
    by (simp add: name_to_code_assign map_of_assign_all)
  then obtain pre post where e: "map prod.swap cs = pre @ (label, code) # post"
    and n: "label \<notin> fst ` set post"
    unfolding map_of_rev_last by blast
  from arg_cong [OF e, of "map prod.swap"]
  have "cs = map prod.swap pre @ (code, label) # map prod.swap post"
    by (simp add: comp_def)
  moreover from n have "label \<notin> snd ` set (map prod.swap post)"
    by (auto simp: image_iff)
  ultimately show "\<exists>pre post. cs = pre @ (code, label) # post \<and> label \<notin> snd ` set post"
    by blast
next
  assume "\<exists>pre post. cs = pre @ (code, label) # post \<and> label \<notin> snd ` set post"
  then obtain pre post where e: "cs = pre @ (code, label) # post" and n: "label \<notin> snd ` set post"
    by blast
  from e have "map prod.swap cs = map prod.swap pre @ (label, code) # map prod.swap post"
    by simp
  moreover from n have "label \<notin> fst ` set (map prod.swap post)"
    by (auto simp: image_iff)
  ultimately have "map_of (rev (map prod.swap cs)) label = Some code"
    unfolding map_of_rev_last by blast
  then show "map_of (name_to_code cs) label = Some code"
    by (simp add: name_to_code_assign map_of_assign_all)
qed

lemma keys_name_to_code: "fst ` set (name_to_code cs) = snd ` set cs"
  by (force simp: name_to_code_assign keys_assign_all)

lemma distinct_name_to_code: "distinct (map fst (name_to_code cs))"
  unfolding name_to_code_assign by (rule distinct_assign_all) simp

lemma set_sorted_countries: "set (sorted_countries m) = set m"
  by (simp add: sorted_countries_def)

lemma length_sorted_countries: "length (sorted_countries m) = length m"
  by (simp add: sorted_countries_def)

lemma distinct_sorted_countries:
  "distinct (map fst m) \<Longrightarrow> distinct (map fst (sorted_countries m))"
  by (simp add: sorted_countries_def distinct_map)

lemma sorted_fst_sorted_countries: "sorted (map fst (sorted_countries m))"
proof -
  have "sorted (sort m)" by simp
  then have "sorted_wrt (\<lambda>p q. fst p \<le> fst q) (sort m)"
    by (rule sorted_wrt_mono_rel [rotated]) (auto simp: less_eq_prod_def)
  then show ?thesis
    by (simp add: sorted_countries_def sorted_wrt_map)
qed

lemma strict_sorted_countries:
  "distinct (map fst m) \<Longrightarrow> sorted_wrt (<) (map fst (sorted_countries m))"
  by (simp add: strict_sorted_iff sorted_fst_sorted_countries distinct_sorted_countries)

lemma distinct_read_rows: "read_rows [] rows = Inr m \<Longrightarrow> distinct (map fst m)"
  using read_rows_retained [of "[]" rows m] distinct_assign_all [of "[]" "retained rows"]
  by simp

lemma code_to_name_sorted:
  "distinct (map fst m) \<Longrightarrow> code_to_name (sorted_countries m) = sorted_countries m"
  by (simp add: code_to_name_assign assign_all_distinct_id distinct_sorted_countries)

section \<open>Trimming\<close>

lemma rstrip_take: "rstrip s = take (length s - length (takeWhile isspace (rev s))) s"
  by (simp add: rstrip_def dropWhile_eq_drop rev_drop)

lemma rstrip_clean_last: "rstrip s \<noteq> [] \<Longrightarrow> \<not> isspace (last (rstrip s))"
  using hd_dropWhile [of isspace "rev s"]
  by (simp add: rstrip_def last_rev)

lemma rstrip_hd: "rstrip s \<noteq> [] \<Longrightarrow> hd (rstrip s) = hd s"
  by (simp add: rstrip_take)

lemma lstrip_clean_hd: "lstrip s \<noteq> [] \<Longrightarrow> \<not> isspace (hd (lstrip s))"
  unfolding lstrip_def by (rule hd_dropWhile)

lemma strip_clean: "strip s \<noteq> [] \<Longrightarrow> clean (strip s)"
proof -
  assume n: "strip s \<noteq> []"
  then have r: "rstrip (lstrip s) \<noteq> []" by (simp add: strip_def)
  then have l: "lstrip s \<noteq> []" by (auto simp: rstrip_def)
  from rstrip_hd [OF r] lstrip_clean_hd [OF l] rstrip_clean_last [OF r] n
  show ?thesis by (simp add: clean_def strip_def)
qed

lemma retained_clean: "(code, label) \<in> set (retained rows) \<Longrightarrow> clean code \<and> clean label"
  by (auto simp: retained_def retained_row_def trimmed_def strip_clean split: pyval.splits)

lemma read_rows_subset: "read_rows [] rows = Inr m \<Longrightarrow> set m \<subseteq> set (retained rows)"
  using set_assign_all [of "[]" "retained rows"] read_rows_retained [of "[]" rows m]
  by simp

lemma set_name_to_code: "set (name_to_code cs) \<subseteq> prod.swap ` set cs"
  using set_assign_all [of "[]" "map prod.swap cs"]
  by (simp add: name_to_code_assign)

section \<open>The effects of a run\<close>

lemma print_loop:
  "foldl (\<lambda>w (code, name). py_print (f code name) w) w cs =
     w\<lparr>stdout := stdout w @ concat (map (\<lambda>(code, name). f code name @ [10]) cs)\<rparr>"
proof (induction cs arbitrary: w)
  case Nil
  then show ?case by simp
next
  case (Cons p cs)
  obtain code name where p: "p = (code, name)" by (cases p)
  show ?case
    unfolding p by (simp add: Cons.IH) (simp add: py_print_def)
qed

lemma run_success:
  assumes "csv_input w = Present rows" and "read_rows [] rows = Inr country_map"
  shows "extract_country_mapping w =
           (Returned, w\<lparr>stdout := stdout w @ console_text (sorted_countries country_map),
                         files := (files w)(output_file \<mapsto>
                                     json_dump (json_object (sorted_countries country_map)) 2)\<rparr>)"
  using assms
  by (simp add: extract_country_mapping_def Let_def print_loop)
    (simp add: py_print_def console_text_def json_object_def)

lemma run_missing:
  assumes "csv_input w = Absent"
  shows "extract_country_mapping w =
           (Returned, w\<lparr>stdout := stdout w @ lit ''Error: '' @ csv_file @ lit '' not found'' @ [10]\<rparr>)"
  using assms by (simp add: extract_country_mapping_def py_print_def)

lemma run_raises:
  assumes "csv_input w = Present rows" and "read_rows [] rows = Inl e"
  shows "extract_country_mapping w = (Raised e, w)"
  using assms by (simp add: extract_country_mapping_def)

lemma read_rows_filter:
  "read_rows m rows = Inr t \<Longrightarrow> read_rows m (filter retained_row rows) = Inr t"
proof (induction rows arbitrary: m)
  case Nil
  then show ?case by simp
next
  case (Cons r rows)
  from Cons.prems obtain m' where b: "loop_body m r = Inr m'" and rest: "read_rows m' rows = Inr t"
    by (auto split: sum.splits)
  show ?case
  proof (cases "retained_row r")
    case True
    with b Cons.IH [OF rest] show ?thesis by simp
  next
    case False
    with loop_body_retained [OF b] have "m' = m" by simp
    with False Cons.IH [OF rest] show ?thesis by simp
  qed
qed

lemma retained_provenance:
  "(code, label) \<in> set (retained rows) \<Longrightarrow>
     \<exists>r \<in> set rows. retained_row r \<and> code = trimmed r REF_AREA \<and> label = trimmed r REF_AREA_LABEL"
  by (auto simp: retained_def)

section \<open>Escaping the apostrophe\<close>

lemma replace_quote_concat:
  "replace s [39] [92, 39] = concat (map (\<lambda>c. if c = 39 then [92, 39] else [c]) s)"
proof (induction s)
  case Nil
  then show ?case by (subst replace.simps) simp
next
  case (Cons c s)
  then show ?case by (subst replace.simps) simp
qed

lemma replace_quote_Cons:
  "replace (c # s) [39] [92, 39] =
     (if c = 39 then 92 # 39 # replace s [39] [92, 39] else c # replace s [39] [92, 39])"
  by (simp add: replace_quote_concat)

lemma replace_quote_Nil: "replace [] [39] [92, 39] = []"
  by (simp add: replace_quote_concat)

lemma replace_quote_unchanged: "39 \<notin> set s \<Longrightarrow> replace s [39] [92, 39] = s"
  by (induction s) (auto simp: replace_quote_Cons replace_quote_Nil)

lemma replace_quote_preceded:
  "i < length (replace s [39] [92, 39]) \<Longrightarrow> replace s [39] [92, 39] ! i = 39 \<Longrightarrow>
     0 < i \<and> replace s [39] [92, 39] ! (i - 1) = 92"
proof (induction s arbitrary: i)
  case Nil
  then show ?case by (simp add: replace_quote_Nil)
next
  case (Cons c s)
  show ?case
  proof (cases "c = 39")
    case True
    with Cons.prems Cons.IH [of "i - 2"] show ?thesis
      by (auto simp: replace_quote_Cons nth_Cons split: nat.splits)
  next
    case False
    with Cons.prems Cons.IH [of "i - 1"] show ?thesis
      by (auto simp: replace_quote_Cons nth_Cons split: nat.splits)
  qed
qed

section \<open>The JSON text\<close>

lemma iterencode_JDict_Nil: "iterencode indent level (JDict []) = lit ''{}''"
  by simp

lemma iterencode_JDict:
  "dct \<noteq> [] \<Longrightarrow>
     iterencode indent level (JDict dct) =
       lit ''{'' @ newline_indent indent (Suc level)
       @ join (lit '','' @ newline_indent indent (Suc level))
              (iterencode_items indent (Suc level) dct)
       @ newline_indent indent level @ lit ''}''"
  by (cases dct) simp_all

lemma newline_indent_2:
  "newline_indent 2 0 = [10]"
  "newline_indent 2 (Suc 0) = [10, 32, 32]"
  "newline_indent 2 (Suc (Suc 0)) = [10, 32, 32, 32, 32]"
  by (simp_all add: newline_indent_def eval_nat_numeral)

lemma iterencode_items_str:
  "iterencode_items indent level (map (\<lambda>(k, v). (k, JStr v)) d) =
     map (\<lambda>(k, v). encode_basestring k @ lit '': '' @ encode_basestring v) d"
  by (induction d) auto

lemma join_newline:
  "xs \<noteq> [] \<Longrightarrow> nl @ join (sep @ nl) xs = join sep (map (\<lambda>x. nl @ x) xs)"
  by (induction sep xs rule: join.induct) auto

lemma iterencode_str_dict:
  assumes "d \<noteq> []"
  shows "iterencode 2 1 (str_dict d) =
     lit ''{''
     @ join (lit '','')
         (map (\<lambda>(k, v). [10] @ lit ''    '' @ encode_basestring k @ lit '': '' @ encode_basestring v) d)
     @ [10] @ lit ''  }''"
proof -
  let ?items = "map (\<lambda>(k, v). encode_basestring k @ lit '': '' @ encode_basestring v) d"
  let ?nl = "newline_indent 2 (Suc (Suc 0))"
  from assms have n: "?items \<noteq> []" by simp
  have m: "map (\<lambda>x. ?nl @ x) ?items =
           map (\<lambda>(k, v). [10] @ lit ''    '' @ encode_basestring k @ lit '': '' @ encode_basestring v) d"
    by (simp add: newline_indent_2 lit_def case_prod_unfold)
  from assms have d: "map (\<lambda>(k, v). (k, JStr v)) d \<noteq> []" by simp
  have "iterencode 2 1 (str_dict d) =
      lit ''{'' @ (?nl @ join (lit '','' @ ?nl) ?items) @ newline_indent 2 (Suc 0) @ lit ''}''"
    unfolding str_dict_def One_nat_def iterencode_JDict [OF d] iterencode_items_str by simp
  also have "?nl @ join (lit '','' @ ?nl) ?items = join (lit '','') (map (\<lambda>x. ?nl @ x) ?items)"
    using n by (rule join_newline)
  finally show ?thesis
    unfolding m by (simp add: newline_indent_2 lit_def)
qed

lemma encode_basestring_plain:
  "\<forall>c\<in>set s. 32 \<le> c \<and> c \<noteq> 34 \<and> c \<noteq> 92 \<Longrightarrow> encode_basestring s = [34] @ s @ [34]"
proof -
  assume a: "\<forall>c\<in>set s. 32 \<le> c \<and> c \<noteq> 34 \<and> c \<noteq> 92"
  then have "concat (map escape_char s) = s"
    by (induction s) (auto simp: escape_char_def)
  then show ?thesis by (simp add: encode_basestring_def)
qed

lemma json_object_text:
  "json_dump (JDict [(lit ''nameToCode'', str_dict n2c), (lit ''codeToName'', str_dict c2n)]) 2 =
     lit ''{'' @ [10]
     @ lit ''  '' @ [34] @ lit ''nameToCode'' @ [34] @ lit '': ''
     @ iterencode 2 1 (str_dict n2c) @ lit '','' @ [10]
     @ lit ''  '' @ [34] @ lit ''codeToName'' @ [34] @ lit '': ''
     @ iterencode 2 1 (str_dict c2n) @ [10] @ lit ''}''"
proof -
  have "[(lit ''nameToCode'', str_dict n2c), (lit ''codeToName'', str_dict c2n)] \<noteq> []"
    by simp
  from iterencode_JDict [OF this, of 2 0] show ?thesis
    unfolding json_dump_def
    by (simp add: newline_indent_2) (simp add: lit_def encode_basestring_def escape_char_def)
qed

section \<open>The example inputs, evaluated\<close>

lemma sample_sorted:
  "sorted_countries sample_map =
     [(lit ''CI'', cote_divoire), (lit ''KP'', lit ''Korea''), (lit ''KR'', lit ''Korea'')]"
  by (simp add: sorted_countries_def sample_map_def cote_divoire_def lit_def)

lemma scenario_sorted:
  "sorted_countries [(lit ''US'', lit ''United States of America''), (lit ''FR'', lit ''France'')] =
     [(lit ''FR'', lit ''France''), (lit ''US'', lit ''United States of America'')]"
  by (simp add: sorted_countries_def lit_def)

lemma sample_name_to_code:
  "name_to_code [(lit ''CI'', cote_divoire), (lit ''KP'', lit ''Korea''), (lit ''KR'', lit ''Korea'')] =
     [(cote_divoire, lit ''CI''), (lit ''Korea'', lit ''KR'')]"
  by (simp add: name_to_code_def cote_divoire_def lit_def)

lemma sample_code_to_name:
  "code_to_name [(lit ''CI'', cote_divoire), (lit ''KP'', lit ''Korea''), (lit ''KR'', lit ''Korea'')] =
     [(lit ''CI'', cote_divoire), (lit ''KP'', lit ''Korea''), (lit ''KR'', lit ''Korea'')]"
  by (simp add: code_to_name_def cote_divoire_def lit_def)

lemma scenario_name_to_code:
  "name_to_code [(lit ''FR'', lit ''France''), (lit ''US'', lit ''United States of America'')] =
     [(lit ''France'', lit ''FR''), (lit ''United States of America'', lit ''US'')]"
  by (simp add: name_to_code_def lit_def)

lemma scenario_code_to_name:
  "code_to_name [(lit ''FR'', lit ''France''), (lit ''US'', lit ''United States of America'')] =
     [(lit ''FR'', lit ''France''), (lit ''US'', lit ''United States of America'')]"
  by (simp add: code_to_name_def lit_def)

lemma short_read: "read_rows [] [short_row] = Inl AttributeError"
  by (simp add: short_row_def loop_body_def row_get_def field_names_differ strip_defs lit_def)

lemma sample_filter:
  "filter retained_row sample_rows =
     [[REF_AREA \<mapsto> PyStr (lit '' CI ''), REF_AREA_LABEL \<mapsto> PyStr (cote_divoire @ lit '' '')],
      [REF_AREA \<mapsto> PyStr (lit ''KR''), REF_AREA_LABEL \<mapsto> PyStr (lit ''Korea'')],
      [REF_AREA \<mapsto> PyStr (lit ''KP''), REF_AREA_LABEL \<mapsto> PyStr (lit ''Korea'')]]"
  by (simp add: sample_rows_def cote_divoire_def retained_row_def trimmed_def row_get_def
      field_names_differ strip_defs lit_def)

lemma scenario_object:
  \<open>json_dump (json_object [(lit ''FR'', lit ''France''), (lit ''US'', lit ''United States of America'')]) 2 =
     lit ''{'' @ [10]
     @ lit ''  "nameToCode": {'' @ [10]
     @ lit ''    "France": "FR",'' @ [10]
     @ lit ''    "United States of America": "US"'' @ [10]
     @ lit ''  },'' @ [10]
     @ lit ''  "codeToName": {'' @ [10]
     @ lit ''    "FR": "France",'' @ [10]
     @ lit ''    "US": "United States of America"'' @ [10]
     @ lit ''  }'' @ [10]
     @ lit ''}''\<close>
  unfolding json_object_def scenario_name_to_code scenario_code_to_name
  by (simp add: json_dump_def str_dict_def newline_indent_2 encode_basestring_def
      escape_char_def lit_def)

lemma sample_object:
  \<open>json_dump (JDict [(lit ''nameToCode'',
                       str_dict (name_to_code (sorted_countries sample_map))),
                     (lit ''codeToName'',
                       str_dict (code_to_name (sorted_countries sample_map)))]) 2 =
     lit ''{'' @ [10]
     @ lit ''  "nameToCode": {'' @ [10]
     @ lit ''    "C'' @ [244] @ lit ''te d'' @ [39] @ lit ''Ivoire": "CI",'' @ [10]
     @ lit ''    "Korea": "KR"'' @ [10]
     @ lit ''  },'' @ [10]
     @ lit ''  "codeToName": {'' @ [10]
     @ lit ''    "CI": "C'' @ [244] @ lit ''te d'' @ [39] @ lit ''Ivoire",'' @ [10]
     @ lit ''    "KP": "Korea",'' @ [10]
     @ lit ''    "KR": "Korea"'' @ [10]
     @ lit ''  }'' @ [10]
     @ lit ''}''\<close>
  unfolding sample_sorted sample_name_to_code sample_code_to_name
  by (simp add: json_dump_def str_dict_def newline_indent_2 encode_basestring_def
      escape_char_def cote_divoire_def lit_def)

lemma str_of_nat_digit: "n < 10 \<Longrightarrow> str_of_nat n = [48 + n]"
  by (subst str_of_nat.simps) simp

lemma scenario_console:
  \<open>console_text [(lit ''FR'', lit ''France''), (lit ''US'', lit ''United States of America'')] =
     lit ''Found 2 unique countries'' @ [10, 10]
     @ replicate 80 61 @ [10]
     @ lit ''COUNTRY CODE MAPPING (for countryMapping.js)'' @ [10]
     @ replicate 80 61 @ [10, 10]
     @ lit ''// Extracted from IMF data - REF_AREA_LABEL to REF_AREA'' @ [10]
     @ lit ''const IMF_COUNTRY_MAP = {'' @ [10]
     @ lit ''  'France': 'FR','' @ [10]
     @ lit ''  'United States of America': 'US','' @ [10]
     @ lit ''}'' @ [10, 10, 10]
     @ lit ''// Reverse mapping (code to name) for display'' @ [10]
     @ lit ''const CODE_TO_NAME = {'' @ [10]
     @ lit ''  'FR': 'France','' @ [10]
     @ lit ''  'US': 'United States of America','' @ [10]
     @ lit ''}'' @ [10, 10, 10, 9989]
     @ lit '' Mapping saved to country-mapping.json'' @ [10, 9989]
     @ lit '' Total countries: 2'' @ [10]\<close>
  by (simp add: console_text_def imf_country_map_line_def code_to_name_line_def
      replace_quote_concat str_of_nat_digit output_file_def lit_def)

section \<open>Reading the JSON text back\<close>

lemma hex_val_hex_digit: "d < 16 \<Longrightarrow> hex_val (hex_digit d) = Some d"
  by (auto simp: hex_val_def hex_digit_def)

lemma read_chars_plain:
  "32 \<le> c \<Longrightarrow> c \<noteq> 34 \<Longrightarrow> c \<noteq> 92 \<Longrightarrow>
     read_chars (c # s) = map_option (apfst ((#) c)) (read_chars s)"
  by simp

lemma read_chars_two:
  "unescape e = Some u \<Longrightarrow> e \<noteq> 117 \<Longrightarrow>
     read_chars (92 # e # s) = map_option (apfst ((#) u)) (read_chars s)"
  by simp

lemma hex4_low:
  "c < 32 \<Longrightarrow> hex4 [48, 48, hex_digit (c div 16), hex_digit (c mod 16)] = Some c"
proof -
  assume "c < 32"
  then have d: "c div 16 < 16" "c mod 16 < 16"
    by simp_all
  have z: "hex_val 48 = Some 0"
    by (simp add: hex_val_def)
  show ?thesis
    by (simp add: hex4_def z hex_val_hex_digit [OF d(1)] hex_val_hex_digit [OF d(2)])
qed

lemma read_chars_u:
  "c < 32 \<Longrightarrow>
     read_chars ([92, 117, 48, 48, hex_digit (c div 16), hex_digit (c mod 16)] @ s) =
       map_option (apfst ((#) c)) (read_chars s)"
  by (simp add: hex4_low)


lemma read_chars_escape:
  "read_chars (escape_char c @ s) = map_option (apfst ((#) c)) (read_chars s)"
proof (cases "c < 32")
  case True
  show ?thesis
  proof (cases "c \<in> {8, 9, 10, 12, 13}")
    case True
    then show ?thesis
      by (auto simp del: read_chars.simps simp add: escape_char_def read_chars_two unescape_def)
  next
    case False
    with \<open>c < 32\<close> have "escape_char c = [92, 117, 48, 48, hex_digit (c div 16), hex_digit (c mod 16)]"
      by (auto simp: escape_char_def)
    with \<open>c < 32\<close> read_chars_u [of c s] show ?thesis
      by (simp del: read_chars.simps)
  qed
next
  case False
  show ?thesis
  proof (cases "c = 34 \<or> c = 92")
    case True
    then show ?thesis
      by (auto simp del: read_chars.simps simp add: escape_char_def read_chars_two unescape_def)
  next
    case False
    with \<open>\<not> c < 32\<close> have "escape_char c = [c]"
      by (auto simp: escape_char_def)
    with False \<open>\<not> c < 32\<close> show ?thesis
      by (simp del: read_chars.simps add: read_chars_plain)
  qed
qed

lemma read_chars_encode:
  "read_chars (concat (map escape_char s) @ 34 # rest) = Some (s, rest)"
proof (induction s)
  case Nil
  then show ?case by simp
next
  case (Cons c s)
  then show ?case
    by (simp del: read_chars.simps add: read_chars_escape)
qed


lemma skip_ws_Cons: "\<not> is_ws c \<Longrightarrow> skip_ws (c # s) = c # s"
  by (simp add: skip_ws_def)

lemma skip_ws_newline_indent: "skip_ws (newline_indent indent level @ s) = skip_ws s"
  unfolding skip_ws_def by (rule dropWhile_append2) (auto simp: newline_indent_def is_ws_def)

lemma not_ws: "\<not> is_ws 34" "\<not> is_ws 44" "\<not> is_ws 58" "\<not> is_ws 123" "\<not> is_ws 125"
  by (simp_all add: is_ws_def)

lemma encode_basestring_Cons:
  "encode_basestring s @ rest = 34 # concat (map escape_char s) @ 34 # rest"
  by (simp add: encode_basestring_def)

lemma read_value_string:
  "read_value (Suc n) (encode_basestring s @ rest) = Some (JStr s, rest)"
  by (simp add: encode_basestring_Cons read_chars_encode)

lemma read_member:
  assumes "read_value n (vt @ after) = Some (v, after)"
    and "skip_ws (vt @ after) = vt @ after"
  shows "read_members (Suc n) (encode_basestring key @ lit '': '' @ vt @ after) =
     (case skip_ws after of
        [] \<Rightarrow> None
      | d # s5 \<Rightarrow>
          if d = 125 then Some ([(key, v)], s5)
          else if d = 44 then map_option (apfst ((#) (key, v))) (read_members n (skip_ws s5))
          else None)"
proof -
  have a: "lit '': '' @ vt @ after = 58 # 32 # vt @ after"
    by (simp add: lit_def)
  have b: "skip_ws (58 # 32 # vt @ after) = 58 # 32 # vt @ after"
    by (simp add: skip_ws_Cons not_ws)
  have c: "skip_ws (32 # vt @ after) = vt @ after"
    using assms(2) by (simp add: skip_ws_def is_ws_def)
  show ?thesis
    unfolding encode_basestring_Cons a
    by (simp add: read_chars_encode b c assms(1))
qed


declare read_value.simps [simp del] read_members.simps [simp del] read_chars.simps [simp del]

lemma skip_ws_encode: "skip_ws (encode_basestring s @ rest) = encode_basestring s @ rest"
  by (simp add: encode_basestring_Cons skip_ws_Cons not_ws)

lemma skip_ws_items:
  "skip_ws (join sep (map (\<lambda>(k, v). encode_basestring k @ lit '': '' @ encode_basestring v) (p # d)) @ z)
     = join sep (map (\<lambda>(k, v). encode_basestring k @ lit '': '' @ encode_basestring v) (p # d)) @ z"
proof -
  obtain k v where p: "p = (k, v)" by (cases p)
  show ?thesis
    by (cases d) (simp_all add: p skip_ws_encode)
qed

lemma read_members_strings:
  assumes "Suc (length d) \<le> n"
  shows "read_members (Suc n)
           (join (lit '','' @ newline_indent indent level)
                 (map (\<lambda>(k, v). encode_basestring k @ lit '': '' @ encode_basestring v) (p # d))
            @ newline_indent indent level' @ lit ''}'' @ rest) =
         Some (map (\<lambda>(k, v). (k, JStr v)) (p # d), rest)"
  using assms
proof (induction d arbitrary: p n)
  case Nil
  obtain k v where p: "p = (k, v)" by (cases p)
  from Nil obtain n' where n: "n = Suc n'" by (cases n) auto
  let ?after = "newline_indent indent level' @ lit ''}'' @ rest"
  have a: "skip_ws ?after = 125 # rest"
    by (simp add: skip_ws_newline_indent lit_def skip_ws_Cons not_ws)
  have "read_members (Suc n) (encode_basestring k @ lit '': '' @ encode_basestring v @ ?after) =
        Some ([(k, JStr v)], rest)"
    unfolding n
    by (subst read_member [where v = "JStr v"])
       (simp_all add: read_value_string skip_ws_encode a)
  then show ?case by (simp add: p)
next
  case (Cons q d)
  obtain k v where p: "p = (k, v)" by (cases p)
  from Cons.prems obtain n' where n: "n = Suc n'" and b: "Suc (length d) \<le> n'"
    by (cases n) auto
  let ?item = "\<lambda>(k, v). encode_basestring k @ lit '': '' @ encode_basestring v"
  let ?sep = "lit '','' @ newline_indent indent level"
  define more where
    "more = join ?sep (map ?item (q # d)) @ newline_indent indent level' @ lit ''}'' @ rest"
  have a: "skip_ws (lit '','' @ newline_indent indent level @ more) =
           44 # newline_indent indent level @ more"
    by (simp add: lit_def skip_ws_Cons not_ws)
  have c: "skip_ws (newline_indent indent level @ more) = more"
    unfolding skip_ws_newline_indent more_def by (rule skip_ws_items)
  have v: "read_value n (encode_basestring v @ ?sep @ more) = Some (JStr v, ?sep @ more)"
    unfolding n by (rule read_value_string)
  have "join ?sep (map ?item (p # q # d)) @ newline_indent indent level' @ lit ''}'' @ rest =
        encode_basestring k @ lit '': '' @ encode_basestring v @ ?sep @ more"
    by (simp add: p more_def)
  moreover have "read_members (Suc n) (encode_basestring k @ lit '': '' @ encode_basestring v @ ?sep @ more) =
        map_option (apfst ((#) (k, JStr v))) (read_members n more)"
    by (subst read_member [OF v skip_ws_encode]) (simp add: a c)
  moreover have "read_members n more = Some (map (\<lambda>(k, v). (k, JStr v)) (q # d), rest)"
    unfolding n more_def by (rule Cons.IH [OF b])
  ultimately show ?case by (simp add: p)
qed

lemma items_start:
  "\<exists>t. join sep (map (\<lambda>(k, v). encode_basestring k @ lit '': '' @ encode_basestring v) (p # d)) @ z
        = 34 # t"
proof -
  obtain k v where p: "p = (k, v)" by (cases p)
  show ?thesis
    by (cases d) (simp_all add: p encode_basestring_def)
qed

lemma read_value_str_dict:
  assumes "length d + 2 \<le> n"
  shows "read_value n (iterencode indent level (str_dict d) @ rest) = Some (str_dict d, rest)"
proof (cases d)
  case Nil
  from assms obtain n' where n: "n = Suc n'" by (cases n) auto
  show ?thesis
    unfolding n Nil
    by (simp add: str_dict_def lit_def read_value.simps skip_ws_Cons not_ws)
next
  case (Cons p d')
  from assms Cons obtain n' where n: "n = Suc (Suc n')" and b: "Suc (length d') \<le> n'"
    by (cases n; cases "n - 1") auto
  let ?item = "\<lambda>(k, v). encode_basestring k @ lit '': '' @ encode_basestring v"
  define members where
    "members = join (lit '','' @ newline_indent indent (Suc level)) (map ?item (p # d'))
               @ newline_indent indent level @ lit ''}'' @ rest"
  have ne: "map (\<lambda>(k, v). (k, JStr v)) (p # d') \<noteq> []"
    by simp
  have t: "iterencode indent level (str_dict d) @ rest =
           123 # newline_indent indent (Suc level) @ members"
    unfolding Cons str_dict_def iterencode_JDict [OF ne] iterencode_items_str members_def
    by (simp add: lit_def)
  have s: "skip_ws (newline_indent indent (Suc level) @ members) = members"
    unfolding skip_ws_newline_indent members_def by (rule skip_ws_items)
  from items_start [of _ p d'] obtain t' where h: "members = 34 # t'"
    unfolding members_def by blast
  have "read_value n (123 # newline_indent indent (Suc level) @ members) =
        map_option (apfst JDict) (read_members (Suc n') members)"
    unfolding n read_value.simps by (simp add: s) (simp add: h)
  moreover have "read_members (Suc n') members = Some (map (\<lambda>(k, v). (k, JStr v)) (p # d'), rest)"
    unfolding members_def by (rule read_members_strings [OF b])
  ultimately show ?thesis
    unfolding t by (simp add: str_dict_def Cons)
qed


lemma skip_ws_str_dict:
  "skip_ws (iterencode indent level (str_dict d) @ rest) = iterencode indent level (str_dict d) @ rest"
proof (cases d)
  case Nil
  then show ?thesis by (simp add: str_dict_def lit_def skip_ws_Cons not_ws)
next
  case (Cons p d')
  have "map (\<lambda>(k, v). (k, JStr v)) (p # d') \<noteq> []" by simp
  from iterencode_JDict [OF this] show ?thesis
    unfolding Cons str_dict_def by (simp add: lit_def skip_ws_Cons not_ws)
qed

lemma length_join: "\<forall>x\<in>set xs. x \<noteq> [] \<Longrightarrow> length xs \<le> length (join sep xs)"
proof (induction sep xs rule: join.induct)
  case (1 sep)
  then show ?case by simp
next
  case (2 sep x)
  then show ?case by (cases x) simp_all
next
  case (3 sep x y ys)
  then show ?case by (cases x) simp_all
qed

lemma length_str_dict: "length d \<le> length (iterencode indent level (str_dict d))"
proof (cases d)
  case Nil
  then show ?thesis by simp
next
  case (Cons p d')
  let ?items = "map (\<lambda>(k, v). encode_basestring k @ lit '': '' @ encode_basestring v) d"
  have ne: "map (\<lambda>(k, v). (k, JStr v)) d \<noteq> []"
    using Cons by simp
  have "\<forall>x\<in>set ?items. x \<noteq> []"
    by (auto simp: encode_basestring_def)
  from length_join [OF this] have "length d \<le> length (join (lit '','' @ newline_indent indent (Suc level)) ?items)"
    by simp
  then show ?thesis
    unfolding str_dict_def iterencode_JDict [OF ne] iterencode_items_str by simp
qed

lemma read_value_object:
  assumes "length a + length b + 5 \<le> n"
  shows "read_value n (iterencode indent 0 (JDict [(k1, str_dict a), (k2, str_dict b)])) =
           Some (JDict [(k1, str_dict a), (k2, str_dict b)], [])"
proof -
  from assms obtain m where n: "n = Suc (Suc (Suc m))" and ba: "length a + 2 \<le> Suc m"
    and bb: "length b + 2 \<le> m"
    by (cases n; cases "n - 1"; cases "n - 2") auto
  define T1 where "T1 = iterencode indent (Suc 0) (str_dict a)"
  define T2 where "T2 = iterencode indent (Suc 0) (str_dict b)"
  define after2 where "after2 = newline_indent indent 0 @ [125]"
  define M2 where "M2 = encode_basestring k2 @ lit '': '' @ T2 @ after2"
  define after1 where "after1 = 44 # newline_indent indent (Suc 0) @ M2"
  define M1 where "M1 = encode_basestring k1 @ lit '': '' @ T1 @ after1"
  have doc: "iterencode indent 0 (JDict [(k1, str_dict a), (k2, str_dict b)]) =
             123 # newline_indent indent (Suc 0) @ M1"
    by (subst iterencode_JDict)
       (simp_all add: M1_def after1_def M2_def after2_def T1_def T2_def lit_def)
  have v2: "read_value m (T2 @ after2) = Some (str_dict b, after2)"
    unfolding T2_def by (rule read_value_str_dict [OF bb])
  have w2: "skip_ws (T2 @ after2) = T2 @ after2"
    unfolding T2_def by (rule skip_ws_str_dict)
  have s2: "skip_ws after2 = [125]"
    unfolding after2_def skip_ws_newline_indent by (simp add: skip_ws_Cons not_ws)
  have r2: "read_members (Suc m) M2 = Some ([(k2, str_dict b)], [])"
    unfolding M2_def by (subst read_member [OF v2 w2]) (simp add: s2)
  have v1: "read_value (Suc m) (T1 @ after1) = Some (str_dict a, after1)"
    unfolding T1_def by (rule read_value_str_dict [OF ba])
  have w1: "skip_ws (T1 @ after1) = T1 @ after1"
    unfolding T1_def by (rule skip_ws_str_dict)
  have s1: "skip_ws after1 = 44 # newline_indent indent (Suc 0) @ M2"
    unfolding after1_def by (simp add: skip_ws_Cons not_ws)
  have h2: "skip_ws (newline_indent indent (Suc 0) @ M2) = M2"
    unfolding skip_ws_newline_indent M2_def by (rule skip_ws_encode)
  have r1: "read_members (Suc (Suc m)) M1 = Some ([(k1, str_dict a), (k2, str_dict b)], [])"
    unfolding M1_def by (subst read_member [OF v1 w1]) (simp add: s1 h2 r2)
  have h1: "skip_ws (newline_indent indent (Suc 0) @ M1) = M1"
    unfolding skip_ws_newline_indent M1_def by (rule skip_ws_encode)
  obtain t' where q: "M1 = 34 # t'"
    by (simp add: M1_def encode_basestring_def)
  have "read_value n (123 # newline_indent indent (Suc 0) @ M1) =
        map_option (apfst JDict) (read_members (Suc (Suc m)) M1)"
    unfolding n read_value.simps by (simp add: h1) (simp add: q)
  with r1 show ?thesis
    unfolding doc by simp
qed

lemma json_read_dump:
  "json_read (json_dump (JDict [(k1, str_dict a), (k2, str_dict b)]) indent) =
     Some (JDict [(k1, str_dict a), (k2, str_dict b)])"
proof -
  let ?doc = "iterencode indent 0 (JDict [(k1, str_dict a), (k2, str_dict b)])"
  have doc: "?doc = 123 # newline_indent indent (Suc 0)
               @ encode_basestring k1 @ lit '': '' @ iterencode indent (Suc 0) (str_dict a)
               @ 44 # newline_indent indent (Suc 0)
               @ encode_basestring k2 @ lit '': '' @ iterencode indent (Suc 0) (str_dict b)
               @ newline_indent indent 0 @ [125]"
    by (subst iterencode_JDict) (simp_all add: lit_def)
  have "length a + length b + 5 \<le> length ?doc"
    unfolding doc
    using length_str_dict [of a indent "Suc 0"] length_str_dict [of b indent "Suc 0"]
    by (simp add: encode_basestring_def newline_indent_def)
  from read_value_object [OF this] have r: "read_value (length ?doc) ?doc =
      Some (JDict [(k1, str_dict a), (k2, str_dict b)], [])" .
  have s: "skip_ws ?doc = ?doc"
    unfolding doc by (simp add: skip_ws_Cons not_ws)
  show ?thesis
    unfolding json_read_def json_dump_def s r by (simp add: skip_ws_def)
qed

lemma hex_digit_ascii: "d < 16 \<Longrightarrow> hex_digit d < 128"
  by (simp add: hex_digit_def)

lemma filter_escape_char:
  "filter (\<lambda>c. 128 \<le> c) (escape_char c) = (if 128 \<le> c then [c] else [])"
proof (cases "c < 32")
  case True
  then have "c div 16 < 16" "c mod 16 < 16" by simp_all
  then have "hex_digit (c div 16) < 128" "hex_digit (c mod 16) < 128"
    by (simp_all add: hex_digit_ascii)
  with True show ?thesis
    by (simp add: escape_char_def)
next
  case False
  then show ?thesis
    by (simp add: escape_char_def)
qed

lemma filter_encode_basestring:
  "filter (\<lambda>c. 128 \<le> c) (encode_basestring s) = filter (\<lambda>c. 128 \<le> c) s"
proof -
  have "filter (\<lambda>c. 128 \<le> c) (concat (map escape_char s)) = filter (\<lambda>c. 128 \<le> c) s"
    by (induction s) (simp_all add: filter_escape_char)
  then show ?thesis
    by (simp add: encode_basestring_def)
qed

lemma json_read_string: "json_read (encode_basestring s) = Some (JStr s)"
proof -
  have l: "length (encode_basestring s) = Suc (Suc (length (concat (map escape_char s))))"
    by (simp add: encode_basestring_def)
  have "skip_ws (encode_basestring s) = encode_basestring s"
    using skip_ws_encode [of s "[]"] by simp
  moreover have "read_value (length (encode_basestring s)) (encode_basestring s) = Some (JStr s, [])"
    unfolding l using read_value_string [of _ s "[]"] by simp
  ultimately show ?thesis
    by (simp add: json_read_def skip_ws_def)
qed

lemma escape_char_table:
  "escape_char 34 = [92, 34]" "escape_char 92 = [92, 92]" "escape_char 8 = [92, 98]"
  "escape_char 12 = [92, 102]" "escape_char 10 = [92, 110]" "escape_char 13 = [92, 114]"
  "escape_char 9 = [92, 116]"
  by (simp_all add: escape_char_def)

lemma escape_char_control:
  "c < 32 \<Longrightarrow> c \<notin> {8, 9, 10, 12, 13} \<Longrightarrow>
     escape_char c = [92, 117, 48, 48, hex_digit (c div 16), hex_digit (c mod 16)]"
  by (auto simp: escape_char_def)

lemma escape_char_plain: "32 \<le> c \<Longrightarrow> c \<noteq> 34 \<Longrightarrow> c \<noteq> 92 \<Longrightarrow> escape_char c = [c]"
  by (auto simp: escape_char_def)

lemma hex_digits: "map hex_digit [0..<16] = lit ''0123456789abcdef''"
  by (simp add: hex_digit_def lit_def upt_rec)


lemma mixed_encoded:
  "encode_basestring mixed_label =
     [34, 244, 92, 34, 92, 92, 92, 110, 92, 117, 48, 48, 48, 49, 8232, 34]"
  by (simp add: mixed_label_def encode_basestring_def escape_char_def hex_digit_def)

lemma last_retained_in_table:
  assumes "read_rows [] rows = Inr country_map"
    and "retained rows = earlier @ (code, name) # later" and "code \<notin> fst ` set later"
  shows "(code, name) \<in> set country_map"
proof -
  from assms(2,3) have "map_of (rev (retained rows)) code = Some name"
    unfolding map_of_rev_last by blast
  then have "map_of country_map code = Some name"
    by (simp add: read_rows_retained [OF assms(1)] map_of_assign_all)
  then show ?thesis by (rule map_of_SomeD)
qed

lemma rendered_entry:
  assumes i: "csv_input w = Present rows" and o: "read_rows [] rows = Inr country_map"
    and s: "sorted_countries country_map = pre @ (code, name) # post"
  shows "\<exists>a b c. stdout (snd (extract_country_mapping w)) =
           stdout w @ a @ lit ''const IMF_COUNTRY_MAP = {'' @ [10]
           @ concat (map (\<lambda>(code, name). imf_country_map_line code name @ [10]) pre)
           @ imf_country_map_line code name @ [10]
           @ concat (map (\<lambda>(code, name). imf_country_map_line code name @ [10]) post)
           @ lit ''}'' @ b @ lit ''const CODE_TO_NAME = {'' @ [10]
           @ concat (map (\<lambda>(code, name). code_to_name_line code name @ [10]) pre)
           @ code_to_name_line code name @ [10]
           @ concat (map (\<lambda>(code, name). code_to_name_line code name @ [10]) post)
           @ lit ''}'' @ c"
proof -
  let ?cs = "sorted_countries country_map"
  let ?a = "lit ''Found '' @ str_of_nat (length ?cs) @ lit '' unique countries'' @ [10, 10]
     @ replicate 80 61 @ [10]
     @ lit ''COUNTRY CODE MAPPING (for countryMapping.js)'' @ [10]
     @ replicate 80 61 @ [10]
     @ [10] @ lit ''// Extracted from IMF data - REF_AREA_LABEL to REF_AREA'' @ [10]"
  let ?b = "[10, 10] @ [10] @ lit ''// Reverse mapping (code to name) for display'' @ [10]"
  let ?c = "[10, 10] @ [10, 9989] @ lit '' Mapping saved to '' @ output_file @ [10]
     @ [9989] @ lit '' Total countries: '' @ str_of_nat (length ?cs) @ [10]"
  have "stdout (snd (extract_country_mapping w)) =
           stdout w @ ?a @ lit ''const IMF_COUNTRY_MAP = {'' @ [10]
           @ concat (map (\<lambda>(code, name). imf_country_map_line code name @ [10]) pre)
           @ imf_country_map_line code name @ [10]
           @ concat (map (\<lambda>(code, name). imf_country_map_line code name @ [10]) post)
           @ lit ''}'' @ ?b @ lit ''const CODE_TO_NAME = {'' @ [10]
           @ concat (map (\<lambda>(code, name). code_to_name_line code name @ [10]) pre)
           @ code_to_name_line code name @ [10]
           @ concat (map (\<lambda>(code, name). code_to_name_line code name @ [10]) post)
           @ lit ''}'' @ ?c"
    unfolding run_success [OF i o] console_text_def
    by (simp add: s)
  then show ?thesis by blast
qed

text \<open>
  What holds of the rows whose fields are strings or absent: a row without the code key,
  or without the label key, is read as a row whose field is the empty string; a row whose
  trimmed code or trimmed label is empty leaves the table as it is; every entry of the
  table is the pair of trimmed fields of a row with both non-empty; and a run that
  returns prints and writes what it prints and writes on the input without the other rows.
\<close>

lemma absent_or_empty_fields_skipped:
  "loop_body m (r(REF_AREA := None)) = loop_body m (r(REF_AREA \<mapsto> PyStr []))
   \<and> loop_body m (r(REF_AREA_LABEL := None)) = loop_body m (r(REF_AREA_LABEL \<mapsto> PyStr []))
   \<and> (row_get r REF_AREA (PyStr []) = PyStr c \<and> row_get r REF_AREA_LABEL (PyStr []) = PyStr l
         \<and> (strip c = [] \<or> strip l = []) \<longrightarrow> loop_body m r = Inr m)
   \<and> (read_rows [] rows = Inr country_map \<and> (code, label) \<in> set country_map \<longrightarrow>
         (\<exists>r \<in> set rows. retained_row r \<and> code = trimmed r REF_AREA
                          \<and> label = trimmed r REF_AREA_LABEL))
   \<and> (csv_input w = Present rows \<and> extract_country_mapping w = (Returned, w') \<longrightarrow>
         extract_country_mapping (w\<lparr>csv_input := Present (filter retained_row rows)\<rparr>) =
           (Returned, w'\<lparr>csv_input := Present (filter retained_row rows)\<rparr>))"
proof -
  have 1: "loop_body m (r(REF_AREA := None)) = loop_body m (r(REF_AREA \<mapsto> PyStr []))"
    by (simp add: loop_body_def row_get_def field_names_differ)
  have 2: "loop_body m (r(REF_AREA_LABEL := None)) = loop_body m (r(REF_AREA_LABEL \<mapsto> PyStr []))"
    by (simp add: loop_body_def row_get_def field_names_differ cong: sum.case_cong)
  have 3: "loop_body m r = Inr m"
    if "row_get r REF_AREA (PyStr []) = PyStr c" "row_get r REF_AREA_LABEL (PyStr []) = PyStr l"
      "strip c = [] \<or> strip l = []"
    using that by (auto simp: loop_body_def)
  have 4: "\<exists>r \<in> set rows. retained_row r \<and> code = trimmed r REF_AREA \<and> label = trimmed r REF_AREA_LABEL"
    if "read_rows [] rows = Inr country_map" "(code, label) \<in> set country_map"
    using read_rows_subset [OF that(1)] that(2) by (blast intro: retained_provenance)
  have 5: "extract_country_mapping (w\<lparr>csv_input := Present (filter retained_row rows)\<rparr>) =
           (Returned, w'\<lparr>csv_input := Present (filter retained_row rows)\<rparr>)"
    if i: "csv_input w = Present rows" and o: "extract_country_mapping w = (Returned, w')"
  proof (cases "read_rows [] rows")
    case (Inl e)
    from run_raises [OF i Inl] o show ?thesis by simp
  next
    case (Inr t)
    let ?w = "w\<lparr>csv_input := Present (filter retained_row rows)\<rparr>"
    have "csv_input ?w = Present (filter retained_row rows)" by simp
    from run_success [OF this read_rows_filter [OF Inr]] run_success [OF i Inr] o
    show ?thesis by auto
  qed
  from 1 2 3 4 5 show ?thesis by blast
qed

section \<open>The claims\<close>

text \<open>
  C1. For every sequence of rows that the loop reads without raising, the table it builds
  has exactly one entry per distinct code among the rows whose trimmed code and trimmed
  label are both non-empty, and the label stored for a code is the label of the last such
  row, in file order, bearing that code.
\<close>

theorem last_write_wins:
  assumes "read_rows [] rows = Inr country_map"
  shows "distinct (map fst country_map)
       \<and> fst ` set country_map = fst ` set (retained rows)
       \<and> ((code, label) \<in> set country_map \<longleftrightarrow>
            (\<exists>pre post. retained rows = pre @ (code, label) # post \<and> code \<notin> fst ` set post))"
proof -
  from assms have t: "country_map = assign_all [] (retained rows)"
    by (rule read_rows_retained)
  have d: "distinct (map fst country_map)"
    unfolding t by (rule distinct_assign_all) simp
  have k: "fst ` set country_map = fst ` set (retained rows)"
    unfolding t by (simp add: keys_assign_all)
  have "(code, label) \<in> set country_map \<longleftrightarrow> map_of country_map code = Some label"
    using d by simp
  also have "\<dots> \<longleftrightarrow> map_of (rev (retained rows)) code = Some label"
    unfolding t by (simp add: map_of_assign_all)
  also have "\<dots> \<longleftrightarrow>
      (\<exists>pre post. retained rows = pre @ (code, label) # post \<and> code \<notin> fst ` set post)"
    by (rule map_of_rev_last)
  finally show ?thesis using d k by blast
qed

theorem last_write_wins_witness:
  "read_rows [] sample_rows = Inr sample_map
   \<and> distinct (map fst sample_map)
   \<and> fst ` set sample_map = fst ` set (retained sample_rows)
   \<and> ((lit ''KR'', lit ''Korea'') \<in> set sample_map \<longleftrightarrow>
        (\<exists>pre post. retained sample_rows = pre @ (lit ''KR'', lit ''Korea'') # post
                     \<and> lit ''KR'' \<notin> fst ` set post))"
  using last_write_wins [OF sample_read, of "lit ''KR''" "lit ''Korea''"] sample_read
  by simp

text \<open>
  C2 (as stated). The two maps are not inverses of each other on every input: when two
  retained codes bear one label, \<open>codeToName\<close> keeps both codes and \<open>nameToCode\<close>
  maps the label to one of them only.
\<close>

theorem maps_not_inverse_counterexample:
  "read_rows [] sample_rows = Inr sample_map
   \<and> map_of (code_to_name (sorted_countries sample_map)) (lit ''KP'') = Some (lit ''Korea'')
   \<and> map_of (name_to_code (sorted_countries sample_map)) (lit ''Korea'') \<noteq> Some (lit ''KP'')"
proof -
  have "map_of (code_to_name (sorted_countries sample_map)) (lit ''KP'') = Some (lit ''Korea'')"
    unfolding sample_sorted sample_code_to_name by (simp add: cote_divoire_def lit_def)
  moreover have "map_of (name_to_code (sorted_countries sample_map)) (lit ''Korea'') \<noteq> Some (lit ''KP'')"
    unfolding sample_sorted sample_name_to_code by (simp add: cote_divoire_def lit_def)
  ultimately show ?thesis using sample_read by simp
qed

text \<open>
  C2 (amended). Every pair of \<open>nameToCode\<close> is the inverse of a pair of
  \<open>codeToName\<close>; and a pair (code, label) of \<open>codeToName\<close> is mapped back by
  \<open>nameToCode\<close> when no other code of \<open>codeToName\<close> bears the label.
\<close>

theorem maps_inverse_amended:
  assumes "read_rows [] rows = Inr country_map"
  shows "(map_of (name_to_code (sorted_countries country_map)) label = Some code
            \<longrightarrow> map_of (code_to_name (sorted_countries country_map)) code = Some label)
       \<and> (map_of (code_to_name (sorted_countries country_map)) code = Some label
            \<and> (\<forall>code'. map_of (code_to_name (sorted_countries country_map)) code' = Some label
                  \<longrightarrow> code' = code)
            \<longrightarrow> map_of (name_to_code (sorted_countries country_map)) label = Some code)"
proof -
  let ?cs = "sorted_countries country_map"
  from assms have d: "distinct (map fst country_map)"
    by (rule distinct_read_rows)
  then have ds: "distinct (map fst ?cs)" and c2n: "code_to_name ?cs = ?cs"
    by (simp_all add: distinct_sorted_countries code_to_name_sorted)
  have fwd: "map_of ?cs c = Some l" if "map_of (name_to_code ?cs) l = Some c" for c l
  proof -
    from that obtain pre post where "?cs = pre @ (c, l) # post"
      unfolding map_of_name_to_code by blast
    then have "(c, l) \<in> set ?cs"
      by (metis in_set_conv_decomp)
    with ds show ?thesis by simp
  qed
  have bwd: "map_of (name_to_code ?cs) label = Some code"
    if own: "map_of ?cs code = Some label"
      and only: "\<forall>code'. map_of ?cs code' = Some label \<longrightarrow> code' = code"
  proof -
    from own have "label \<in> snd ` set ?cs"
      by (force dest: map_of_SomeD)
    then have "label \<in> fst ` set (name_to_code ?cs)"
      by (simp add: keys_name_to_code)
    then obtain code' where n: "map_of (name_to_code ?cs) label = Some code'"
      by (metis domD dom_map_of_conv_image_fst)
    from fwd [OF this] only have "code' = code"
      by blast
    with n show ?thesis by simp
  qed
  from fwd bwd show ?thesis
    unfolding c2n by blast
qed

theorem maps_inverse_amended_witness:
  "read_rows [] sample_rows = Inr sample_map
   \<and> map_of (name_to_code (sorted_countries sample_map)) (lit ''Korea'') = Some (lit ''KR'')
   \<and> map_of (code_to_name (sorted_countries sample_map)) (lit ''KR'') = Some (lit ''Korea'')
   \<and> map_of (code_to_name (sorted_countries sample_map)) (lit ''CI'') = Some cote_divoire
   \<and> map fst (filter (\<lambda>(code, label). label = cote_divoire)
                       (code_to_name (sorted_countries sample_map))) = [lit ''CI'']
   \<and> map_of (name_to_code (sorted_countries sample_map)) cote_divoire = Some (lit ''CI'')"
proof -
  have n: "map_of (name_to_code (sorted_countries sample_map)) (lit ''Korea'') = Some (lit ''KR'')"
    unfolding sample_sorted sample_name_to_code by (simp add: cote_divoire_def lit_def)
  have c: "map_of (code_to_name (sorted_countries sample_map)) (lit ''CI'') = Some cote_divoire"
    unfolding sample_sorted sample_code_to_name by (simp add: cote_divoire_def lit_def)
  have u: "\<forall>code'. map_of (code_to_name (sorted_countries sample_map)) code' = Some cote_divoire
             \<longrightarrow> code' = lit ''CI''"
    unfolding sample_sorted sample_code_to_name by (simp add: cote_divoire_def lit_def)
  have f: "map fst (filter (\<lambda>(code, label). label = cote_divoire)
                       (code_to_name (sorted_countries sample_map))) = [lit ''CI'']"
    unfolding sample_sorted sample_code_to_name by (simp add: cote_divoire_def lit_def)
  from maps_inverse_amended [OF sample_read, of "lit ''Korea''" "lit ''KR''"]
    maps_inverse_amended [OF sample_read, of cote_divoire "lit ''CI''"] sample_read n c u f
  show ?thesis by blast
qed

text \<open>
  C3. The claim fails on a line that is too short for the header: the reader gives the
  label the value \<open>None\<close>, the key is present, the default of \<open>row.get\<close> does not apply
  and \<open>None.strip()\<close> raises. On the row with code US and label \<open>None\<close> the loop raises
  \<open>AttributeError\<close>, also when the code is empty and also after the three rows of the
  scenario: the run ends with exit status 1 and prints and writes nothing. The same row
  without the label key, or with the empty string as label, is skipped, as the claim says.
\<close>

theorem short_line_raises:
  "row_get short_row REF_AREA_LABEL (PyStr []) = PyNone
   \<and> loop_body [] short_row = Inl AttributeError
   \<and> loop_body [] (short_row(REF_AREA \<mapsto> PyStr [])) = Inl AttributeError
   \<and> read_rows [] (scenario_rows @ [short_row]) = Inl AttributeError
   \<and> extract_country_mapping
         \<lparr>csv_input = Present (scenario_rows @ [short_row]), files = Map.empty, stdout = []\<rparr> =
       (Raised AttributeError,
        \<lparr>csv_input = Present (scenario_rows @ [short_row]), files = Map.empty, stdout = []\<rparr>)
   \<and> exit_status (fst (extract_country_mapping
         \<lparr>csv_input = Present (scenario_rows @ [short_row]), files = Map.empty, stdout = []\<rparr>)) = 1
   \<and> loop_body [] (short_row(REF_AREA_LABEL := None)) = Inr []
   \<and> loop_body [] (short_row(REF_AREA_LABEL \<mapsto> PyStr [])) = Inr []"
proof -
  have g: "row_get short_row REF_AREA_LABEL (PyStr []) = PyNone"
    by (simp add: short_row_def row_get_def)
  have b: "loop_body [] short_row = Inl AttributeError"
    "loop_body [] (short_row(REF_AREA \<mapsto> PyStr [])) = Inl AttributeError"
    "loop_body [] (short_row(REF_AREA_LABEL := None)) = Inr []"
    "loop_body [] (short_row(REF_AREA_LABEL \<mapsto> PyStr [])) = Inr []"
    by (simp_all add: short_row_def loop_body_def row_get_def field_names_differ strip_defs lit_def)
  have r: "read_rows [] (scenario_rows @ [short_row]) = Inl AttributeError"
    by (simp add: scenario_rows_def short_row_def loop_body_def row_get_def field_names_differ
        strip_defs lit_def)
  have x: "extract_country_mapping
         \<lparr>csv_input = Present (scenario_rows @ [short_row]), files = Map.empty, stdout = []\<rparr> =
       (Raised AttributeError,
        \<lparr>csv_input = Present (scenario_rows @ [short_row]), files = Map.empty, stdout = []\<rparr>)"
    by (rule run_raises [OF _ r]) simp
  from g b r x show ?thesis
    by simp
qed

text \<open>
  C4. The sequence \<open>sorted_countries\<close>, from which both blocks are printed and both JSON
  maps are built, is strictly ascending by code; it holds each retained code exactly once.
\<close>

theorem sorted_strictly_ascending:
  assumes "read_rows [] rows = Inr country_map"
  shows "sorted_wrt (<) (map fst (sorted_countries country_map))
       \<and> set (map fst (sorted_countries country_map)) = fst ` set (retained rows)
       \<and> set (sorted_countries country_map) = set country_map
       \<and> code_to_name (sorted_countries country_map) = sorted_countries country_map"
proof -
  from assms have d: "distinct (map fst country_map)"
    by (rule distinct_read_rows)
  from assms have "fst ` set country_map = fst ` set (retained rows)"
    by (simp add: read_rows_retained [OF assms] keys_assign_all)
  with d show ?thesis
    by (simp add: strict_sorted_countries set_sorted_countries code_to_name_sorted)
qed

theorem sorted_strictly_ascending_witness:
  "read_rows [] sample_rows = Inr sample_map
   \<and> sorted_wrt (<) (map fst (sorted_countries sample_map))
   \<and> set (map fst (sorted_countries sample_map)) = fst ` set (retained sample_rows)
   \<and> set (sorted_countries sample_map) = set sample_map
   \<and> code_to_name (sorted_countries sample_map) = sorted_countries sample_map
   \<and> map fst (sorted_countries sample_map) = [lit ''CI'', lit ''KP'', lit ''KR'']"
  using sorted_strictly_ascending [OF sample_read] sample_read sample_sorted
  by simp

text \<open>
  C5. When the input path holds no file, the procedure prints the error line with the
  path and returns: nothing is written and the exit status is 0. It is the only failure
  that ends this way: an exception raised while the rows are read ends the run with a
  non-zero status, and a run that reads its rows without exception writes the output file.
\<close>

theorem missing_input_reported:
  "(csv_input w = Absent \<longrightarrow>
      extract_country_mapping w =
        (Returned, w\<lparr>stdout := stdout w @ lit ''Error: '' @ csv_file @ lit '' not found'' @ [10]\<rparr>)
      \<and> exit_status (fst (extract_country_mapping w)) = 0
      \<and> files (snd (extract_country_mapping w)) = files w)
   \<and> (csv_input w = Present rows \<and> read_rows [] rows = Inl e \<longrightarrow>
        extract_country_mapping w = (Raised e, w)
        \<and> exit_status (fst (extract_country_mapping w)) = 1)
   \<and> (csv_input w = Present rows \<and> read_rows [] rows = Inr country_map \<longrightarrow>
        fst (extract_country_mapping w) = Returned
        \<and> files (snd (extract_country_mapping w)) output_file \<noteq> None)"
  by (auto simp: run_missing run_raises run_success)

theorem missing_input_reported_witness:
  "csv_input missing_world = Absent
   \<and> extract_country_mapping missing_world =
        (Returned, missing_world\<lparr>stdout := lit ''Error: ../data/48-indicators/IMF_GFSE_GE_G14.csv not found'' @ [10]\<rparr>)
   \<and> exit_status (fst (extract_country_mapping missing_world)) = 0
   \<and> files (snd (extract_country_mapping missing_world)) = Map.empty
   \<and> csv_input (missing_world\<lparr>csv_input := Present [short_row]\<rparr>) = Present [short_row]
   \<and> read_rows [] [short_row] = Inl AttributeError
   \<and> extract_country_mapping (missing_world\<lparr>csv_input := Present [short_row]\<rparr>) =
        (Raised AttributeError, missing_world\<lparr>csv_input := Present [short_row]\<rparr>)
   \<and> exit_status (fst (extract_country_mapping (missing_world\<lparr>csv_input := Present [short_row]\<rparr>))) = 1
   \<and> csv_input sample_world = Present sample_rows
   \<and> read_rows [] sample_rows = Inr sample_map
   \<and> fst (extract_country_mapping sample_world) = Returned
   \<and> files (snd (extract_country_mapping sample_world)) output_file \<noteq> None"
proof -
  have a: "csv_input missing_world = Absent"
    by (simp add: missing_world_def)
  have b: "csv_input (missing_world\<lparr>csv_input := Present [short_row]\<rparr>) = Present [short_row]"
    by simp
  have c: "csv_input sample_world = Present sample_rows"
    by (simp add: sample_world_def)
  have f: "files missing_world = Map.empty" "stdout missing_world = []"
    by (simp_all add: missing_world_def)
  have l: "lit ''Error: '' @ csv_file @ lit '' not found'' =
           lit ''Error: ../data/48-indicators/IMF_GFSE_GE_G14.csv not found''"
    by (simp add: csv_file_def lit_def)
  from missing_input_reported [of missing_world] a f l
  have 1: "extract_country_mapping missing_world =
        (Returned, missing_world\<lparr>stdout := lit ''Error: ../data/48-indicators/IMF_GFSE_GE_G14.csv not found'' @ [10]\<rparr>)
   \<and> exit_status (fst (extract_country_mapping missing_world)) = 0
   \<and> files (snd (extract_country_mapping missing_world)) = Map.empty"
    by simp
  from missing_input_reported [of "missing_world\<lparr>csv_input := Present [short_row]\<rparr>" "[short_row]" AttributeError]
    b short_read
  have 2: "extract_country_mapping (missing_world\<lparr>csv_input := Present [short_row]\<rparr>) =
        (Raised AttributeError, missing_world\<lparr>csv_input := Present [short_row]\<rparr>)
   \<and> exit_status (fst (extract_country_mapping (missing_world\<lparr>csv_input := Present [short_row]\<rparr>))) = 1"
    by blast
  from missing_input_reported [of sample_world sample_rows _ sample_map] c sample_read
  have 3: "fst (extract_country_mapping sample_world) = Returned
   \<and> files (snd (extract_country_mapping sample_world)) output_file \<noteq> None"
    by blast
  from a b c short_read sample_read 1 2 3 show ?thesis
    by blast
qed

text \<open>
  C6. The end-to-end scenario: the rows (US, United States), (US, United States of
  America), (FR, France) give the table with FR for France and US for United States of
  America, the sorted order FR, US (the order of the lines of both printed blocks), and
  the JSON object with \<open>nameToCode\<close> and \<open>codeToName\<close> as stated, written with
  an indentation of two spaces.
\<close>

theorem end_to_end_scenario:
  \<open>read_rows [] scenario_rows =
     Inr [(lit ''US'', lit ''United States of America''), (lit ''FR'', lit ''France'')]
   \<and> map_of [(lit ''US'', lit ''United States of America''), (lit ''FR'', lit ''France'')] =
       [lit ''FR'' \<mapsto> lit ''France'', lit ''US'' \<mapsto> lit ''United States of America'']
   \<and> sorted_countries [(lit ''US'', lit ''United States of America''), (lit ''FR'', lit ''France'')] =
       [(lit ''FR'', lit ''France''), (lit ''US'', lit ''United States of America'')]
   \<and> name_to_code [(lit ''FR'', lit ''France''), (lit ''US'', lit ''United States of America'')] =
       [(lit ''France'', lit ''FR''), (lit ''United States of America'', lit ''US'')]
   \<and> code_to_name [(lit ''FR'', lit ''France''), (lit ''US'', lit ''United States of America'')] =
       [(lit ''FR'', lit ''France''), (lit ''US'', lit ''United States of America'')]
   \<and> fst (extract_country_mapping scenario_world) = Returned
   \<and> files (snd (extract_country_mapping scenario_world)) =
       [lit ''country-mapping.json'' \<mapsto>
          lit ''{'' @ [10]
          @ lit ''  "nameToCode": {'' @ [10]
          @ lit ''    "France": "FR",'' @ [10]
          @ lit ''    "United States of America": "US"'' @ [10]
          @ lit ''  },'' @ [10]
          @ lit ''  "codeToName": {'' @ [10]
          @ lit ''    "FR": "France",'' @ [10]
          @ lit ''    "US": "United States of America"'' @ [10]
          @ lit ''  }'' @ [10]
          @ lit ''}'']
   \<and> stdout (snd (extract_country_mapping scenario_world)) =
       lit ''Found 2 unique countries'' @ [10, 10]
       @ replicate 80 61 @ [10]
       @ lit ''COUNTRY CODE MAPPING (for countryMapping.js)'' @ [10]
       @ replicate 80 61 @ [10, 10]
       @ lit ''// Extracted from IMF data - REF_AREA_LABEL to REF_AREA'' @ [10]
       @ lit ''const IMF_COUNTRY_MAP = {'' @ [10]
       @ lit ''  'France': 'FR','' @ [10]
       @ lit ''  'United States of America': 'US','' @ [10]
       @ lit ''}'' @ [10, 10, 10]
       @ lit ''// Reverse mapping (code to name) for display'' @ [10]
       @ lit ''const CODE_TO_NAME = {'' @ [10]
       @ lit ''  'FR': 'France','' @ [10]
       @ lit ''  'US': 'United States of America','' @ [10]
       @ lit ''}'' @ [10, 10, 10, 9989]
       @ lit '' Mapping saved to country-mapping.json'' @ [10, 9989]
       @ lit '' Total countries: 2'' @ [10]\<close>
proof -
  have c: "csv_input scenario_world = Present scenario_rows"
    and f: "files scenario_world = Map.empty"
    and o: "stdout scenario_world = []"
    by (simp_all add: scenario_world_def)
  have p: "stdout (snd (extract_country_mapping scenario_world)) =
       console_text [(lit ''FR'', lit ''France''), (lit ''US'', lit ''United States of America'')]"
    by (simp add: run_success [OF c scenario_read] o scenario_sorted)
  have m: "map_of [(lit ''US'', lit ''United States of America''), (lit ''FR'', lit ''France'')] =
       [lit ''FR'' \<mapsto> lit ''France'', lit ''US'' \<mapsto> lit ''United States of America'']"
    by (auto simp: fun_eq_iff)
  have r: "fst (extract_country_mapping scenario_world) = Returned"
    by (simp add: run_success [OF c scenario_read])
  have w: "files (snd (extract_country_mapping scenario_world)) =
       [output_file \<mapsto>
          json_dump (json_object [(lit ''FR'', lit ''France''),
                                  (lit ''US'', lit ''United States of America'')]) 2]"
    by (simp add: run_success [OF c scenario_read] f scenario_sorted)
  from scenario_read m scenario_sorted scenario_name_to_code scenario_code_to_name r w p
  show ?thesis
    unfolding scenario_object scenario_console output_file_def by simp
qed

text \<open>
  C7. In the line printed for a pair in either block the label stands with each of its
  apostrophes replaced by a backslash and the apostrophe, and with every other code point
  as it is: every apostrophe of the rendered label is preceded by a backslash, and a label
  without apostrophe is rendered unchanged. The two blocks of a successful run are made
  of these lines, one per pair of the sorted sequence, which holds the pairs of the table
  and no more; and every retained pair that is the last of its code among the retained
  rows is in the table and has its line in both blocks.
\<close>

theorem quotes_escaped:
  "replace name [39] [92, 39] = concat (map (\<lambda>c. if c = 39 then [92, 39] else [c]) name)
   \<and> (39 \<notin> set name \<longrightarrow> replace name [39] [92, 39] = name)
   \<and> (i < length (replace name [39] [92, 39]) \<and> replace name [39] [92, 39] ! i = 39 \<longrightarrow>
        0 < i \<and> replace name [39] [92, 39] ! (i - 1) = 92)
   \<and> imf_country_map_line code name =
        lit ''  '' @ [39] @ replace name [39] [92, 39] @ [39] @ lit '': '' @ [39] @ code @ [39] @ lit '',''
   \<and> code_to_name_line code name =
        lit ''  '' @ [39] @ code @ [39] @ lit '': '' @ [39] @ replace name [39] [92, 39] @ [39] @ lit '',''
   \<and> (csv_input w = Present rows \<and> read_rows [] rows = Inr country_map \<longrightarrow>
        set (sorted_countries country_map) = set country_map
        \<and> length (sorted_countries country_map) = length country_map
        \<and> (\<exists>a b c. stdout (snd (extract_country_mapping w)) =
           stdout w @ a @ lit ''const IMF_COUNTRY_MAP = {'' @ [10]
           @ concat (map (\<lambda>(code, name). imf_country_map_line code name @ [10])
                         (sorted_countries country_map))
           @ lit ''}'' @ b @ lit ''const CODE_TO_NAME = {'' @ [10]
           @ concat (map (\<lambda>(code, name). code_to_name_line code name @ [10])
                         (sorted_countries country_map))
           @ lit ''}'' @ c))
   \<and> (csv_input w = Present rows \<and> read_rows [] rows = Inr country_map
        \<and> retained rows = earlier @ (code, name) # later \<and> code \<notin> fst ` set later \<longrightarrow>
        (code, name) \<in> set country_map
        \<and> (\<exists>pre post a b c. sorted_countries country_map = pre @ (code, name) # post
           \<and> stdout (snd (extract_country_mapping w)) =
           stdout w @ a @ lit ''const IMF_COUNTRY_MAP = {'' @ [10]
           @ concat (map (\<lambda>(code, name). imf_country_map_line code name @ [10]) pre)
           @ imf_country_map_line code name @ [10]
           @ concat (map (\<lambda>(code, name). imf_country_map_line code name @ [10]) post)
           @ lit ''}'' @ b @ lit ''const CODE_TO_NAME = {'' @ [10]
           @ concat (map (\<lambda>(code, name). code_to_name_line code name @ [10]) pre)
           @ code_to_name_line code name @ [10]
           @ concat (map (\<lambda>(code, name). code_to_name_line code name @ [10]) post)
           @ lit ''}'' @ c))"
proof -
  have blocks: "set (sorted_countries country_map) = set country_map
        \<and> length (sorted_countries country_map) = length country_map
        \<and> (\<exists>a b c. stdout (snd (extract_country_mapping w)) =
           stdout w @ a @ lit ''const IMF_COUNTRY_MAP = {'' @ [10]
           @ concat (map (\<lambda>(code, name). imf_country_map_line code name @ [10])
                         (sorted_countries country_map))
           @ lit ''}'' @ b @ lit ''const CODE_TO_NAME = {'' @ [10]
           @ concat (map (\<lambda>(code, name). code_to_name_line code name @ [10])
                         (sorted_countries country_map))
           @ lit ''}'' @ c)"
    if i: "csv_input w = Present rows" and o: "read_rows [] rows = Inr country_map"
  proof -
    let ?cs = "sorted_countries country_map"
    let ?a = "lit ''Found '' @ str_of_nat (length ?cs) @ lit '' unique countries'' @ [10, 10]
     @ replicate 80 61 @ [10]
     @ lit ''COUNTRY CODE MAPPING (for countryMapping.js)'' @ [10]
     @ replicate 80 61 @ [10]
     @ [10] @ lit ''// Extracted from IMF data - REF_AREA_LABEL to REF_AREA'' @ [10]"
    let ?b = "[10, 10] @ [10] @ lit ''// Reverse mapping (code to name) for display'' @ [10]"
    let ?c = "[10, 10] @ [10, 9989] @ lit '' Mapping saved to '' @ output_file @ [10]
     @ [9989] @ lit '' Total countries: '' @ str_of_nat (length ?cs) @ [10]"
    have "stdout (snd (extract_country_mapping w)) =
           stdout w @ ?a @ lit ''const IMF_COUNTRY_MAP = {'' @ [10]
           @ concat (map (\<lambda>(code, name). imf_country_map_line code name @ [10]) ?cs)
           @ lit ''}'' @ ?b @ lit ''const CODE_TO_NAME = {'' @ [10]
           @ concat (map (\<lambda>(code, name). code_to_name_line code name @ [10]) ?cs)
           @ lit ''}'' @ ?c"
      by (simp add: run_success [OF i o] console_text_def)
    then show ?thesis
      using set_sorted_countries [of country_map] length_sorted_countries [of country_map]
      by blast
  qed
  have entry: "(code, name) \<in> set country_map
        \<and> (\<exists>pre post a b c. sorted_countries country_map = pre @ (code, name) # post
           \<and> stdout (snd (extract_country_mapping w)) =
           stdout w @ a @ lit ''const IMF_COUNTRY_MAP = {'' @ [10]
           @ concat (map (\<lambda>(code, name). imf_country_map_line code name @ [10]) pre)
           @ imf_country_map_line code name @ [10]
           @ concat (map (\<lambda>(code, name). imf_country_map_line code name @ [10]) post)
           @ lit ''}'' @ b @ lit ''const CODE_TO_NAME = {'' @ [10]
           @ concat (map (\<lambda>(code, name). code_to_name_line code name @ [10]) pre)
           @ code_to_name_line code name @ [10]
           @ concat (map (\<lambda>(code, name). code_to_name_line code name @ [10]) post)
           @ lit ''}'' @ c)"
    if i: "csv_input w = Present rows" and o: "read_rows [] rows = Inr country_map"
      and r: "retained rows = earlier @ (code, name) # later" and l: "code \<notin> fst ` set later"
  proof -
    from last_retained_in_table [OF o r l] have m: "(code, name) \<in> set country_map" .
    then have "(code, name) \<in> set (sorted_countries country_map)"
      by (simp add: set_sorted_countries)
    then obtain pre post where s: "sorted_countries country_map = pre @ (code, name) # post"
      by (meson split_list)
    from rendered_entry [OF i o s] m s show ?thesis
      by blast
  qed
  have escaping: "replace name [39] [92, 39] = concat (map (\<lambda>c. if c = 39 then [92, 39] else [c]) name)
   \<and> (39 \<notin> set name \<longrightarrow> replace name [39] [92, 39] = name)
   \<and> (i < length (replace name [39] [92, 39]) \<and> replace name [39] [92, 39] ! i = 39 \<longrightarrow>
        0 < i \<and> replace name [39] [92, 39] ! (i - 1) = 92)
   \<and> imf_country_map_line code name =
        lit ''  '' @ [39] @ replace name [39] [92, 39] @ [39] @ lit '': '' @ [39] @ code @ [39] @ lit '',''
   \<and> code_to_name_line code name =
        lit ''  '' @ [39] @ code @ [39] @ lit '': '' @ [39] @ replace name [39] [92, 39] @ [39] @ lit '',''"
    using replace_quote_preceded [of i name]
    by (simp add: replace_quote_concat [symmetric] replace_quote_unchanged
        imf_country_map_line_def code_to_name_line_def)
  from escaping blocks entry show ?thesis
    by blast
qed


theorem quotes_escaped_witness:
  \<open>39 \<notin> set (lit ''Korea'') \<and> replace (lit ''Korea'') [39] [92, 39] = lit ''Korea''
   \<and> replace cote_divoire [39] [92, 39] = lit ''C'' @ [244] @ lit ''te d'' @ [92, 39] @ lit ''Ivoire''
   \<and> 7 < length (replace cote_divoire [39] [92, 39])
   \<and> replace cote_divoire [39] [92, 39] ! 7 = 39
   \<and> replace cote_divoire [39] [92, 39] ! (7 - 1) = 92
   \<and> imf_country_map_line (lit ''CI'') cote_divoire =
        lit ''  'C'' @ [244] @ lit ''te d'' @ [92, 39] @ lit ''Ivoire': 'CI',''
   \<and> code_to_name_line (lit ''CI'') cote_divoire =
        lit ''  'CI': 'C'' @ [244] @ lit ''te d'' @ [92, 39] @ lit ''Ivoire',''
   \<and> csv_input sample_world = Present sample_rows
   \<and> read_rows [] sample_rows = Inr sample_map
   \<and> set (sorted_countries sample_map) = set sample_map
   \<and> length (sorted_countries sample_map) = length sample_map
   \<and> (\<exists>a b c. stdout (snd (extract_country_mapping sample_world)) =
           stdout sample_world @ a @ lit ''const IMF_COUNTRY_MAP = {'' @ [10]
           @ concat (map (\<lambda>(code, name). imf_country_map_line code name @ [10])
                         (sorted_countries sample_map))
           @ lit ''}'' @ b @ lit ''const CODE_TO_NAME = {'' @ [10]
           @ concat (map (\<lambda>(code, name). code_to_name_line code name @ [10])
                         (sorted_countries sample_map))
           @ lit ''}'' @ c)
   \<and> retained sample_rows =
        [] @ (lit ''CI'', cote_divoire) # [(lit ''KR'', lit ''Korea''), (lit ''KP'', lit ''Korea'')]
   \<and> lit ''CI'' \<notin> fst ` set [(lit ''KR'', lit ''Korea''), (lit ''KP'', lit ''Korea'')]
   \<and> (lit ''CI'', cote_divoire) \<in> set sample_map
   \<and> (\<exists>pre post a b c. sorted_countries sample_map = pre @ (lit ''CI'', cote_divoire) # post
        \<and> stdout (snd (extract_country_mapping sample_world)) =
           stdout sample_world @ a @ lit ''const IMF_COUNTRY_MAP = {'' @ [10]
           @ concat (map (\<lambda>(code, name). imf_country_map_line code name @ [10]) pre)
           @ imf_country_map_line (lit ''CI'') cote_divoire @ [10]
           @ concat (map (\<lambda>(code, name). imf_country_map_line code name @ [10]) post)
           @ lit ''}'' @ b @ lit ''const CODE_TO_NAME = {'' @ [10]
           @ concat (map (\<lambda>(code, name). code_to_name_line code name @ [10]) pre)
           @ code_to_name_line (lit ''CI'') cote_divoire @ [10]
           @ concat (map (\<lambda>(code, name). code_to_name_line code name @ [10]) post)
           @ lit ''}'' @ c)\<close>
proof -
  have k: "39 \<notin> set (lit ''Korea'')"
    by (simp add: lit_def)
  have e: "replace cote_divoire [39] [92, 39] = lit ''C'' @ [244] @ lit ''te d'' @ [92, 39] @ lit ''Ivoire''"
    using quotes_escaped [where name = cote_divoire] by (simp add: cote_divoire_def lit_def)
  have i: "7 < length (replace cote_divoire [39] [92, 39])"
    "replace cote_divoire [39] [92, 39] ! 7 = 39"
    unfolding e by (simp_all add: lit_def)
  have l1: \<open>imf_country_map_line (lit ''CI'') cote_divoire =
        lit ''  'C'' @ [244] @ lit ''te d'' @ [92, 39] @ lit ''Ivoire': 'CI',''\<close>
    using quotes_escaped [where name = cote_divoire and code = "lit ''CI''"]
    unfolding e by (simp add: lit_def)
  have l2: \<open>code_to_name_line (lit ''CI'') cote_divoire =
        lit ''  'CI': 'C'' @ [244] @ lit ''te d'' @ [92, 39] @ lit ''Ivoire',''\<close>
    using quotes_escaped [where name = cote_divoire and code = "lit ''CI''"]
    unfolding e by (simp add: lit_def)
  have c: "csv_input sample_world = Present sample_rows"
    by (simp add: sample_world_def)
  have r: "retained sample_rows =
        [] @ (lit ''CI'', cote_divoire) # [(lit ''KR'', lit ''Korea''), (lit ''KP'', lit ''Korea'')]"
    by (simp add: sample_retained sample_map_def)
  have n: "lit ''CI'' \<notin> fst ` set [(lit ''KR'', lit ''Korea''), (lit ''KP'', lit ''Korea'')]"
    by (simp add: lit_def)
  note at_korea = quotes_escaped [where name = "lit ''Korea''"]
  note at_seven = quotes_escaped [where name = cote_divoire and i = 7]
  note at_entry = quotes_escaped [where name = cote_divoire and code = "lit ''CI''"
      and w = sample_world and rows = sample_rows and country_map = sample_map
      and earlier = "[]" and later = "[(lit ''KR'', lit ''Korea''), (lit ''KP'', lit ''Korea'')]"]
  from at_korea k have 1: "replace (lit ''Korea'') [39] [92, 39] = lit ''Korea''"
    by blast
  from at_seven i have 2: "replace cote_divoire [39] [92, 39] ! (7 - 1) = 92"
    by blast
  from at_entry c sample_read r n
  have 3: "set (sorted_countries sample_map) = set sample_map"
    and 4: "length (sorted_countries sample_map) = length sample_map"
    and 5: "\<exists>a b c. stdout (snd (extract_country_mapping sample_world)) =
           stdout sample_world @ a @ lit ''const IMF_COUNTRY_MAP = {'' @ [10]
           @ concat (map (\<lambda>(code, name). imf_country_map_line code name @ [10])
                         (sorted_countries sample_map))
           @ lit ''}'' @ b @ lit ''const CODE_TO_NAME = {'' @ [10]
           @ concat (map (\<lambda>(code, name). code_to_name_line code name @ [10])
                         (sorted_countries sample_map))
           @ lit ''}'' @ c"
    and 6: "(lit ''CI'', cote_divoire) \<in> set sample_map"
    and 7: "\<exists>pre post a b c. sorted_countries sample_map = pre @ (lit ''CI'', cote_divoire) # post
        \<and> stdout (snd (extract_country_mapping sample_world)) =
           stdout sample_world @ a @ lit ''const IMF_COUNTRY_MAP = {'' @ [10]
           @ concat (map (\<lambda>(code, name). imf_country_map_line code name @ [10]) pre)
           @ imf_country_map_line (lit ''CI'') cote_divoire @ [10]
           @ concat (map (\<lambda>(code, name). imf_country_map_line code name @ [10]) post)
           @ lit ''}'' @ b @ lit ''const CODE_TO_NAME = {'' @ [10]
           @ concat (map (\<lambda>(code, name). code_to_name_line code name @ [10]) pre)
           @ code_to_name_line (lit ''CI'') cote_divoire @ [10]
           @ concat (map (\<lambda>(code, name). code_to_name_line code name @ [10]) post)
           @ lit ''}'' @ c"
    by blast+
  from k 1 e i 2 l1 l2 c sample_read 3 4 5 r n 6 7 show ?thesis
    by blast
qed

text \<open>
  C8. A successful run writes, at the path \<open>country-mapping.json\<close> and whatever the
  path held before, one JSON object with the keys \<open>nameToCode\<close> and \<open>codeToName\<close>
  in this order, both maps built from the sorted sequence: for all contents of the two
  maps the text is read back, by the JSON grammar, as this object. The keys of the object
  are indented by two spaces and the items of the two maps by four, one item per line.
  Every string is written between double quotes, code point by code point: the double
  quote, the backslash and the code points below 32 escaped, every other code point as it
  is, so that the non-ASCII code points of the text are those of the string, in order.
\<close>

theorem json_written:
  \<open>(csv_input w = Present rows \<and> read_rows [] rows = Inr country_map \<longrightarrow>
      fst (extract_country_mapping w) = Returned
      \<and> files (snd (extract_country_mapping w)) =
          (files w)(output_file \<mapsto>
             json_dump (JDict [(lit ''nameToCode'',
                                 str_dict (name_to_code (sorted_countries country_map))),
                               (lit ''codeToName'',
                                 str_dict (code_to_name (sorted_countries country_map)))]) 2)
      \<and> set (sorted_countries country_map) = set country_map
      \<and> code_to_name (sorted_countries country_map) = sorted_countries country_map
      \<and> fst ` set (name_to_code (sorted_countries country_map)) = snd ` set country_map
      \<and> (map_of (name_to_code (sorted_countries country_map)) label = Some code
            \<longrightarrow> (code, label) \<in> set country_map))
   \<and> output_file = lit ''country-mapping.json''
   \<and> json_read (json_dump (JDict [(lit ''nameToCode'', str_dict n2c),
                                   (lit ''codeToName'', str_dict c2n)]) 2) =
       Some (JDict [(lit ''nameToCode'', str_dict n2c), (lit ''codeToName'', str_dict c2n)])
   \<and> json_dump (JDict [(lit ''nameToCode'', str_dict n2c), (lit ''codeToName'', str_dict c2n)]) 2 =
       lit ''{'' @ [10]
       @ lit ''  "nameToCode": '' @ iterencode 2 1 (str_dict n2c) @ lit '','' @ [10]
       @ lit ''  "codeToName": '' @ iterencode 2 1 (str_dict c2n) @ [10]
       @ lit ''}''
   \<and> iterencode 2 1 (str_dict []) = lit ''{}''
   \<and> (d \<noteq> [] \<longrightarrow>
        iterencode 2 1 (str_dict d) =
          lit ''{''
          @ join (lit '','')
              (map (\<lambda>(k, v). [10] @ lit ''    '' @ encode_basestring k @ lit '': ''
                                @ encode_basestring v) d)
          @ [10] @ lit ''  }'')
   \<and> encode_basestring s = [34] @ concat (map escape_char s) @ [34]
   \<and> json_read (encode_basestring s) = Some (JStr s)
   \<and> filter (\<lambda>c. 128 \<le> c) (encode_basestring s) = filter (\<lambda>c. 128 \<le> c) s
   \<and> escape_char 34 = [92, 34] \<and> escape_char 92 = [92, 92] \<and> escape_char 8 = [92, 98]
   \<and> escape_char 12 = [92, 102] \<and> escape_char 10 = [92, 110] \<and> escape_char 13 = [92, 114]
   \<and> escape_char 9 = [92, 116]
   \<and> (c < 32 \<and> c \<notin> {8, 9, 10, 12, 13} \<longrightarrow>
        escape_char c = [92, 117, 48, 48, hex_digit (c div 16), hex_digit (c mod 16)])
   \<and> map hex_digit [0..<16] = lit ''0123456789abcdef''
   \<and> (32 \<le> c \<and> c \<noteq> 34 \<and> c \<noteq> 92 \<longrightarrow> escape_char c = [c])
   \<and> ((\<forall>c\<in>set s. 32 \<le> c \<and> c \<noteq> 34 \<and> c \<noteq> 92) \<longrightarrow> encode_basestring s = [34] @ s @ [34])\<close>
proof -
  have run: "fst (extract_country_mapping w) = Returned
      \<and> files (snd (extract_country_mapping w)) =
          (files w)(output_file \<mapsto>
             json_dump (JDict [(lit ''nameToCode'',
                                 str_dict (name_to_code (sorted_countries country_map))),
                               (lit ''codeToName'',
                                 str_dict (code_to_name (sorted_countries country_map)))]) 2)
      \<and> set (sorted_countries country_map) = set country_map
      \<and> code_to_name (sorted_countries country_map) = sorted_countries country_map
      \<and> fst ` set (name_to_code (sorted_countries country_map)) = snd ` set country_map
      \<and> (map_of (name_to_code (sorted_countries country_map)) label = Some code
            \<longrightarrow> (code, label) \<in> set country_map)"
    if "csv_input w = Present rows" "read_rows [] rows = Inr country_map"
  proof -
    from that(2) have "distinct (map fst country_map)"
      by (rule distinct_read_rows)
    then have "code_to_name (sorted_countries country_map) = sorted_countries country_map"
      by (rule code_to_name_sorted)
    moreover have "(code, label) \<in> set country_map"
      if "map_of (name_to_code (sorted_countries country_map)) label = Some code"
    proof -
      from that obtain pre post where "sorted_countries country_map = pre @ (code, label) # post"
        unfolding map_of_name_to_code by blast
      then have "(code, label) \<in> set (sorted_countries country_map)"
        by (metis in_set_conv_decomp)
      then show ?thesis by (simp add: set_sorted_countries)
    qed
    ultimately show ?thesis
      by (simp add: run_success [OF \<open>csv_input w = Present rows\<close> \<open>read_rows [] rows = Inr country_map\<close>]
          json_object_def set_sorted_countries keys_name_to_code)
  qed
  have shape: \<open>json_dump (JDict [(lit ''nameToCode'', str_dict n2c), (lit ''codeToName'', str_dict c2n)]) 2 =
       lit ''{'' @ [10]
       @ lit ''  "nameToCode": '' @ iterencode 2 1 (str_dict n2c) @ lit '','' @ [10]
       @ lit ''  "codeToName": '' @ iterencode 2 1 (str_dict c2n) @ [10]
       @ lit ''}''\<close>
    unfolding json_object_text by (simp add: lit_def)
  have empty: "iterencode 2 1 (str_dict []) = lit ''{}''"
    by (simp add: str_dict_def)
  have enc: "encode_basestring s = [34] @ concat (map escape_char s) @ [34]"
    by (simp add: encode_basestring_def)
  have layout: \<open>(csv_input w = Present rows \<and> read_rows [] rows = Inr country_map \<longrightarrow>
      fst (extract_country_mapping w) = Returned
      \<and> files (snd (extract_country_mapping w)) =
          (files w)(output_file \<mapsto>
             json_dump (JDict [(lit ''nameToCode'',
                                 str_dict (name_to_code (sorted_countries country_map))),
                               (lit ''codeToName'',
                                 str_dict (code_to_name (sorted_countries country_map)))]) 2)
      \<and> set (sorted_countries country_map) = set country_map
      \<and> code_to_name (sorted_countries country_map) = sorted_countries country_map
      \<and> fst ` set (name_to_code (sorted_countries country_map)) = snd ` set country_map
      \<and> (map_of (name_to_code (sorted_countries country_map)) label = Some code
            \<longrightarrow> (code, label) \<in> set country_map))
   \<and> output_file = lit ''country-mapping.json''
   \<and> json_read (json_dump (JDict [(lit ''nameToCode'', str_dict n2c),
                                   (lit ''codeToName'', str_dict c2n)]) 2) =
       Some (JDict [(lit ''nameToCode'', str_dict n2c), (lit ''codeToName'', str_dict c2n)])
   \<and> json_dump (JDict [(lit ''nameToCode'', str_dict n2c), (lit ''codeToName'', str_dict c2n)]) 2 =
       lit ''{'' @ [10]
       @ lit ''  "nameToCode": '' @ iterencode 2 1 (str_dict n2c) @ lit '','' @ [10]
       @ lit ''  "codeToName": '' @ iterencode 2 1 (str_dict c2n) @ [10]
       @ lit ''}''
   \<and> iterencode 2 1 (str_dict []) = lit ''{}''
   \<and> (d \<noteq> [] \<longrightarrow>
        iterencode 2 1 (str_dict d) =
          lit ''{''
          @ join (lit '','')
              (map (\<lambda>(k, v). [10] @ lit ''    '' @ encode_basestring k @ lit '': ''
                                @ encode_basestring v) d)
          @ [10] @ lit ''  }'')\<close>
    using run shape empty iterencode_str_dict [of d] json_read_dump [of "lit ''nameToCode''" n2c "lit ''codeToName''" c2n 2]
    unfolding output_file_def by blast
  have strings: "encode_basestring s = [34] @ concat (map escape_char s) @ [34]
   \<and> json_read (encode_basestring s) = Some (JStr s)
   \<and> filter (\<lambda>c. 128 \<le> c) (encode_basestring s) = filter (\<lambda>c. 128 \<le> c) s"
    using enc json_read_string [of s] filter_encode_basestring [of s] by blast
  have escapes: "escape_char 34 = [92, 34] \<and> escape_char 92 = [92, 92] \<and> escape_char 8 = [92, 98]
   \<and> escape_char 12 = [92, 102] \<and> escape_char 10 = [92, 110] \<and> escape_char 13 = [92, 114]
   \<and> escape_char 9 = [92, 116]
   \<and> (c < 32 \<and> c \<notin> {8, 9, 10, 12, 13} \<longrightarrow>
        escape_char c = [92, 117, 48, 48, hex_digit (c div 16), hex_digit (c mod 16)])
   \<and> map hex_digit [0..<16] = lit ''0123456789abcdef''
   \<and> (32 \<le> c \<and> c \<noteq> 34 \<and> c \<noteq> 92 \<longrightarrow> escape_char c = [c])
   \<and> ((\<forall>c\<in>set s. 32 \<le> c \<and> c \<noteq> 34 \<and> c \<noteq> 92) \<longrightarrow> encode_basestring s = [34] @ s @ [34])"
    using escape_char_table escape_char_control [of c] hex_digits escape_char_plain [of c]
      encode_basestring_plain [of s]
    by blast
  from layout strings escapes show ?thesis
    by blast
qed


theorem json_written_witness:
  \<open>csv_input sample_world = Present sample_rows
   \<and> read_rows [] sample_rows = Inr sample_map
   \<and> fst (extract_country_mapping sample_world) = Returned
   \<and> files (snd (extract_country_mapping sample_world)) =
        [lit ''country-mapping.json'' \<mapsto>
           lit ''{'' @ [10]
           @ lit ''  "nameToCode": {'' @ [10]
           @ lit ''    "C'' @ [244] @ lit ''te d'' @ [39] @ lit ''Ivoire": "CI",'' @ [10]
           @ lit ''    "Korea": "KR"'' @ [10]
           @ lit ''  },'' @ [10]
           @ lit ''  "codeToName": {'' @ [10]
           @ lit ''    "CI": "C'' @ [244] @ lit ''te d'' @ [39] @ lit ''Ivoire",'' @ [10]
           @ lit ''    "KP": "Korea",'' @ [10]
           @ lit ''    "KR": "Korea"'' @ [10]
           @ lit ''  }'' @ [10]
           @ lit ''}'']
   \<and> map_of (name_to_code (sorted_countries sample_map)) (lit ''Korea'') = Some (lit ''KR'')
   \<and> (lit ''KR'', lit ''Korea'') \<in> set sample_map
   \<and> sample_map \<noteq> []
   \<and> iterencode 2 1 (str_dict sample_map) =
        lit ''{''
        @ join (lit '','')
            (map (\<lambda>(k, v). [10] @ lit ''    '' @ encode_basestring k @ lit '': ''
                              @ encode_basestring v) sample_map)
        @ [10] @ lit ''  }''
   \<and> list_all (\<lambda>c. 32 \<le> c \<and> c \<noteq> 34 \<and> c \<noteq> 92) cote_divoire
   \<and> encode_basestring cote_divoire = [34] @ cote_divoire @ [34]
   \<and> encode_basestring mixed_label =
        [34, 244, 92, 34, 92, 92, 92, 110, 92, 117, 48, 48, 48, 49, 8232, 34]
   \<and> json_read (encode_basestring mixed_label) = Some (JStr mixed_label)
   \<and> filter (\<lambda>c. 128 \<le> c) (encode_basestring mixed_label) = [244, 8232]
   \<and> json_read (json_dump (JDict [(lit ''nameToCode'', str_dict [(mixed_label, lit ''CI'')]),
                                   (lit ''codeToName'', str_dict [(lit ''CI'', mixed_label)])]) 2) =
        Some (JDict [(lit ''nameToCode'', JDict [(mixed_label, JStr (lit ''CI''))]),
                     (lit ''codeToName'', JDict [(lit ''CI'', JStr mixed_label)])])
   \<and> (1::nat) < 32 \<and> (1::nat) \<notin> {8, 9, 10, 12, 13}
   \<and> escape_char 1 = [92, 117, 48, 48, 48, 49]
   \<and> (32::nat) \<le> 244 \<and> (244::nat) \<noteq> 34 \<and> (244::nat) \<noteq> 92
   \<and> escape_char 244 = [244]\<close>
proof -
  have c: "csv_input sample_world = Present sample_rows"
    and f: "files sample_world = Map.empty"
    by (simp_all add: sample_world_def)
  have n: "sample_map \<noteq> []"
    by (simp add: sample_map_def)
  have p: "\<forall>c\<in>set cote_divoire. 32 \<le> c \<and> c \<noteq> 34 \<and> c \<noteq> 92"
    by (simp add: cote_divoire_def lit_def)
  have q: "list_all (\<lambda>c. 32 \<le> c \<and> c \<noteq> 34 \<and> c \<noteq> 92) cote_divoire"
    using p by (simp add: list_all_iff)
  have a: "(1::nat) < 32 \<and> (1::nat) \<notin> {8, 9, 10, 12, 13}"
    "(32::nat) \<le> 244 \<and> (244::nat) \<noteq> 34 \<and> (244::nat) \<noteq> 92"
    by simp_all
  have k: "map_of (name_to_code (sorted_countries sample_map)) (lit ''Korea'') = Some (lit ''KR'')"
    unfolding sample_sorted sample_name_to_code by (simp add: cote_divoire_def lit_def)
  note first = json_written [where w = sample_world and rows = sample_rows
      and country_map = sample_map and d = sample_map and s = cote_divoire and c = 244
      and label = "lit ''Korea''" and code = "lit ''KR''"]
  note second = json_written [where s = mixed_label and c = 1
      and ?n2c = "[(mixed_label, lit ''CI'')]" and ?c2n = "[(lit ''CI'', mixed_label)]"]
  from first c sample_read n p a k
  have "(lit ''KR'', lit ''Korea'') \<in> set sample_map"
    and "fst (extract_country_mapping sample_world) = Returned"
    and "files (snd (extract_country_mapping sample_world)) =
          (files sample_world)(output_file \<mapsto>
             json_dump (JDict [(lit ''nameToCode'',
                                 str_dict (name_to_code (sorted_countries sample_map))),
                               (lit ''codeToName'',
                                 str_dict (code_to_name (sorted_countries sample_map)))]) 2)"
    and "output_file = lit ''country-mapping.json''"
    and "iterencode 2 1 (str_dict sample_map) =
        lit ''{''
        @ join (lit '','')
            (map (\<lambda>(k, v). [10] @ lit ''    '' @ encode_basestring k @ lit '': ''
                              @ encode_basestring v) sample_map)
        @ [10] @ lit ''  }''"
    and "encode_basestring cote_divoire = [34] @ cote_divoire @ [34]"
    and "escape_char 244 = [244]"
    by blast+
  moreover from second a
  have "json_read (encode_basestring mixed_label) = Some (JStr mixed_label)"
    and "filter (\<lambda>c. 128 \<le> c) (encode_basestring mixed_label) = filter (\<lambda>c. 128 \<le> c) mixed_label"
    and "json_read (json_dump (JDict [(lit ''nameToCode'', str_dict [(mixed_label, lit ''CI'')]),
                                   (lit ''codeToName'', str_dict [(lit ''CI'', mixed_label)])]) 2) =
        Some (JDict [(lit ''nameToCode'', str_dict [(mixed_label, lit ''CI'')]),
                     (lit ''codeToName'', str_dict [(lit ''CI'', mixed_label)])])"
    and "escape_char 1 = [92, 117, 48, 48, hex_digit (1 div 16), hex_digit (1 mod 16)]"
    by blast+
  moreover have "filter (\<lambda>c. 128 \<le> c) mixed_label = [244, 8232]"
    by (simp add: mixed_label_def)
  moreover have "hex_digit (1 div 16) = 48" "hex_digit (1 mod 16) = 49"
    by (simp_all add: hex_digit_def)
  ultimately show ?thesis
    using c sample_read n q a k mixed_encoded unfolding sample_object f
    by (simp add: str_dict_def)
qed

text \<open>
  C9. Every code and every label of the table, of the sorted sequence from which the
  blocks are printed, and of the two JSON maps is a non-empty string without leading or
  trailing whitespace.
\<close>

theorem entries_clean:
  assumes "read_rows [] rows = Inr country_map"
    and "(code, label) \<in> set country_map \<union> set (sorted_countries country_map)
           \<union> set (code_to_name (sorted_countries country_map))
           \<union> prod.swap ` set (name_to_code (sorted_countries country_map))"
  shows "clean code \<and> clean label"
proof -
  let ?cs = "sorted_countries country_map"
  from assms(1) have "distinct (map fst country_map)"
    by (rule distinct_read_rows)
  then have c2n: "code_to_name ?cs = ?cs"
    by (rule code_to_name_sorted)
  have "prod.swap ` set (name_to_code ?cs) \<subseteq> set ?cs"
    using set_name_to_code [of ?cs] by force
  with assms(2) have "(code, label) \<in> set country_map"
    by (auto simp: c2n set_sorted_countries)
  with read_rows_subset [OF assms(1)] have "(code, label) \<in> set (retained rows)"
    by blast
  then show ?thesis by (rule retained_clean)
qed

theorem entries_clean_witness:
  "read_rows [] sample_rows = Inr sample_map
   \<and> (lit ''CI'', cote_divoire) \<in> set sample_map \<union> set (sorted_countries sample_map)
           \<union> set (code_to_name (sorted_countries sample_map))
           \<union> prod.swap ` set (name_to_code (sorted_countries sample_map))
   \<and> clean (lit ''CI'') \<and> clean cote_divoire"
proof -
  have m: "(lit ''CI'', cote_divoire) \<in> set sample_map \<union> set (sorted_countries sample_map)
           \<union> set (code_to_name (sorted_countries sample_map))
           \<union> prod.swap ` set (name_to_code (sorted_countries sample_map))"
    by (simp add: sample_map_def)
  from entries_clean [OF sample_read m] sample_read m show ?thesis
    by blast
qed

text \<open>
  C10. Every label that is a key of \<open>nameToCode\<close> is mapped to a code that
  \<open>codeToName\<close> maps back to the label, and that code is the greatest of the codes
  bearing the label.
\<close>

theorem name_to_code_round_trip:
  assumes "read_rows [] rows = Inr country_map"
    and "label \<in> fst ` set (name_to_code (sorted_countries country_map))"
  shows "\<exists>code. map_of (name_to_code (sorted_countries country_map)) label = Some code
           \<and> map_of (code_to_name (sorted_countries country_map)) code = Some label
           \<and> (\<forall>code'. map_of (code_to_name (sorted_countries country_map)) code' = Some label
                 \<longrightarrow> code' \<le> code)"
proof -
  let ?cs = "sorted_countries country_map"
  from assms(1) have d: "distinct (map fst country_map)"
    by (rule distinct_read_rows)
  then have ds: "distinct (map fst ?cs)" and ss: "sorted_wrt (<) (map fst ?cs)"
    and c2n: "code_to_name ?cs = ?cs"
    by (simp_all add: distinct_sorted_countries strict_sorted_countries code_to_name_sorted)
  from assms(2) obtain code where n: "map_of (name_to_code ?cs) label = Some code"
    by (metis domD dom_map_of_conv_image_fst)
  then obtain pre post where e: "?cs = pre @ (code, label) # post"
    and l: "label \<notin> snd ` set post"
    unfolding map_of_name_to_code by blast
  from e have "(code, label) \<in> set ?cs"
    by (metis in_set_conv_decomp)
  with ds have rt: "map_of ?cs code = Some label"
    by simp
  have "code' \<le> code" if "map_of ?cs code' = Some label" for code'
  proof -
    from that have "(code', label) \<in> set ?cs" by (rule map_of_SomeD)
    then have "(code', label) \<in> set pre \<or> code' = code"
      using l by (subst (asm) e) force
    moreover have "code' < code" if "(code', label) \<in> set pre"
      using ss that by (subst (asm) e) (force simp: sorted_wrt_append)
    ultimately show ?thesis by auto
  qed
  with n rt show ?thesis
    unfolding c2n by blast
qed

theorem name_to_code_round_trip_witness:
  "read_rows [] sample_rows = Inr sample_map
   \<and> lit ''Korea'' \<in> fst ` set (name_to_code (sorted_countries sample_map))
   \<and> (\<exists>code. map_of (name_to_code (sorted_countries sample_map)) (lit ''Korea'') = Some code
         \<and> map_of (code_to_name (sorted_countries sample_map)) code = Some (lit ''Korea'')
         \<and> (\<forall>code'. map_of (code_to_name (sorted_countries sample_map)) code' = Some (lit ''Korea'')
               \<longrightarrow> code' \<le> code))
   \<and> map_of (name_to_code (sorted_countries sample_map)) (lit ''Korea'') = Some (lit ''KR'')"
proof -
  have k: "lit ''Korea'' \<in> fst ` set (name_to_code (sorted_countries sample_map))"
    by (simp add: sample_sorted sample_name_to_code)
  have v: "map_of (name_to_code (sorted_countries sample_map)) (lit ''Korea'') = Some (lit ''KR'')"
    unfolding sample_sorted sample_name_to_code by (simp add: cote_divoire_def lit_def)
  from name_to_code_round_trip [OF sample_read k] sample_read k v show ?thesis
    by blast
qed

end
